theory Spec2Isabelle
  imports Main
begin

section \<open>Strings and Python sets\<close>

text \<open>
  The controller is the Python module \<^verbatim>\<open>db-replica_ctrl.py\<close>. Python's unbounded
  integers are \<^typ>\<open>int\<close>, its strings are \<^typ>\<open>string\<close>, and every exception the
  controller can meet is a value of \<open>py_error\<close>. Of the driver's exceptions,
  \<open>ServerSelectionTimeoutError\<close> is raised when no server could be selected within
  \<^verbatim>\<open>serverSelectionTimeoutMS\<close>, \<open>NetworkTimeout\<close> when a connection or a command
  runs into \<^verbatim>\<open>connectTimeoutMS\<close> or \<^verbatim>\<open>socketTimeoutMS\<close>, and
  \<open>OperationFailure\<close>, with its code and message, when the server refuses a command
  (authentication failures among them). They are different classes: a handler for one
  does not catch another.
\<close>

datatype py_error =
    AssertionError
  | IndexError
  | KeyError
  | RuntimeError
  | ServerSelectionTimeoutError
  | NetworkTimeout
  | OperationFailure "int option" string
  | PyMongoError string
  | DockerException
  | OtherException

type_synonym 'a result = "py_error + 'a"

text \<open>\<^verbatim>\<open>str(n)\<close> for an integer: decimal digits, with a sign for negatives.\<close>

definition digit_char :: "nat \<Rightarrow> char" where
  "digit_char d = ''0123456789'' ! d"

function str_nat :: "nat \<Rightarrow> string" where
  "str_nat n = (if n < 10 then [digit_char n] else str_nat (n div 10) @ [digit_char (n mod 10)])"
  by pat_completeness auto
termination
  by (relation "measure (\<lambda>n. n)") auto

declare str_nat.simps [simp del]

definition str_int :: "int \<Rightarrow> string" where
  "str_int i = (if i < 0 then CHR ''-'' # str_nat (nat (- i)) else str_nat (nat i))"

text \<open>\<^verbatim>\<open>"{}:{}".format(ip, mongo_port)\<close>\<close>

definition format_host :: "string \<Rightarrow> int \<Rightarrow> string" where
  "format_host ip mongo_port = ip @ '':'' @ str_int mongo_port"

text \<open>\<^verbatim>\<open>h.split(":")[0]\<close>: the characters before the first colon.\<close>

definition host_ip :: "string \<Rightarrow> string" where
  "host_ip h = takeWhile (\<lambda>c. c \<noteq> CHR '':'') h"

text \<open>\<^verbatim>\<open>sub in s\<close> for strings.\<close>

fun starts_with :: "string \<Rightarrow> string \<Rightarrow> bool" where
  "starts_with [] s = True"
| "starts_with (c # cs) [] = False"
| "starts_with (c # cs) (d # ds) = (c = d \<and> starts_with cs ds)"

fun contains :: "string \<Rightarrow> string \<Rightarrow> bool" where
  "contains sub [] = (sub = [])"
| "contains sub (c # cs) = (starts_with sub (c # cs) \<or> contains sub cs)"

text \<open>
  A Python \<^verbatim>\<open>set\<close> of ips is a duplicate-free list, in the order in which the
  interpreter iterates over it. Python leaves that order unspecified, so every operation
  that builds a set takes the order from a parameter \<open>ord\<close>, of which only
  \<open>iteration_order\<close> is known: it permutes its argument.
\<close>

type_synonym ip_set = "string list"

definition iteration_order :: "(string list \<Rightarrow> string list) \<Rightarrow> bool" where
  "iteration_order ord \<longleftrightarrow>
     (\<forall>xs. set (ord xs) = set xs \<and> (distinct xs \<longrightarrow> distinct (ord xs)))"

definition pyset :: "(string list \<Rightarrow> string list) \<Rightarrow> string list \<Rightarrow> ip_set" where
  "pyset ord xs = ord (remdups xs)"

definition pydiff :: "(string list \<Rightarrow> string list) \<Rightarrow> ip_set \<Rightarrow> ip_set \<Rightarrow> ip_set" where
  "pydiff ord a b = ord (filter (\<lambda>x. x \<notin> set b) a)"

section \<open>Replica-set configuration documents\<close>

record member =
  m_id :: int
  host :: string

record config =
  c_id :: string
  members :: "member list"
  version :: int

text \<open>\<^verbatim>\<open>create_mongo_config(tasks_ips, replicaset_name, mongo_port)\<close>\<close>

definition create_mongo_config :: "string list \<Rightarrow> string \<Rightarrow> int \<Rightarrow> config" where
  "create_mongo_config tasks_ips replicaset_name mongo_port =
     \<lparr>c_id = replicaset_name,
      members = map (\<lambda>(i, ip). \<lparr>m_id = int i, host = format_host ip mongo_port\<rparr>)
                    (enumerate 0 tasks_ips),
      version = 1\<rparr>"

section \<open>The orchestrator's view\<close>

text \<open>
  What the Docker API returns, as far as the controller reads it: a task with its node
  (a task that is not assigned to a node has no \<^verbatim>\<open>NodeID\<close>),
  its desired and actual state and its network attachments (network name and addresses);
  a node with its availability and state; a service with its tasks and its \<^verbatim>\<open>Mode\<close>
  dictionary (\<^verbatim>\<open>{'Replicated': {'Replicas': n}}\<close> or \<^verbatim>\<open>{'Global': {}}\<close>).
\<close>

record task =
  task_id :: string
  node_id :: "string option"
  desired_state :: string
  state :: string
  attachments :: "(string \<times> string list) list"

record node =
  n_id :: string
  availability :: string
  n_state :: string

record service =
  s_name :: string
  s_tasks :: "task list"
  s_mode :: "string \<rightharpoonup> (string \<rightharpoonup> int)"

record swarm =
  services :: "service list"
  nodes :: "node list"

definition get_mongo_service :: "service list \<Rightarrow> string \<Rightarrow> service result" where
  "get_mongo_service all_services mongo_service_name =
     (let mongo_services = filter (\<lambda>s. s_name s = mongo_service_name) all_services
      in if length mongo_services > 1 then Inl RuntimeError
         else case mongo_services of [] \<Rightarrow> Inl RuntimeError | s # _ \<Rightarrow> Inr s)"

text \<open>
  \<^verbatim>\<open>get_assigned_nodes\<close> adds \<^verbatim>\<open>task['NodeID']\<close> of every task of the service to a
  set; the lookup raises \<^verbatim>\<open>KeyError\<close> on a task without that key.
\<close>

fun add_assigned_nodes :: "task list \<Rightarrow> string set \<Rightarrow> string set result" where
  "add_assigned_nodes [] assigned_nodes = Inr assigned_nodes"
| "add_assigned_nodes (t # ts) assigned_nodes =
     (case node_id t of
        None \<Rightarrow> Inl KeyError
      | Some n \<Rightarrow> add_assigned_nodes ts (insert n assigned_nodes))"

definition get_assigned_nodes :: "service \<Rightarrow> string set result" where
  "get_assigned_nodes mongo_service = add_assigned_nodes (s_tasks mongo_service) {}"

definition get_running_tasks :: "service \<Rightarrow> task list" where
  "get_running_tasks mongo_service =
     filter (\<lambda>t. desired_state t = ''running'' \<and> state t = ''running'') (s_tasks mongo_service)"

definition active_nodes :: "node list \<Rightarrow> string set" where
  "active_nodes ns =
     set (map n_id (filter (\<lambda>n. availability n = ''active'' \<and> n_state n \<noteq> ''down'') ns))"

text \<open>
  \<^verbatim>\<open>is_service_up\<close> on what the Docker API returned: the service, with its tasks and its
  mode, and the list of nodes are the inputs. The order of the source is kept: the running
  tasks are counted, the assigned nodes are collected (which raises on a task without
  \<^verbatim>\<open>NodeID\<close>), the active nodes are selected, and only then the mode is looked at.
\<close>

definition is_service_up :: "service option \<Rightarrow> node list \<Rightarrow> bool result" where
  "is_service_up mongo_service ns =
     (case mongo_service of
        None \<Rightarrow> Inr False
      | Some svc \<Rightarrow>
          (let running_tasks_count = length (get_running_tasks svc)
           in case get_assigned_nodes svc of
                Inl e \<Rightarrow> Inl e
              | Inr assigned_nodes \<Rightarrow>
                  (let assigned_active_nodes = active_nodes ns \<inter> assigned_nodes;
                       mode = s_mode svc
                   in case mode ''Replicated'' of
                        Some replicated \<Rightarrow>
                          (case replicated ''Replicas'' of
                             None \<Rightarrow> Inl KeyError
                           | Some expected_replicas \<Rightarrow>
                               Inr (int running_tasks_count = expected_replicas))
                      | None \<Rightarrow>
                          (case mode ''Global'' of
                             Some g \<Rightarrow> Inr (running_tasks_count = card assigned_active_nodes)
                           | None \<Rightarrow> Inr False))))"

text \<open>
  \<^verbatim>\<open>get_tasks_ips(tasks, overlay_network_name)\<close>: the first address of every attachment
  to the overlay network, without its prefix length. \<^verbatim>\<open>n['Addresses'][0]\<close> raises on an
  attachment without addresses.
\<close>

definition strip_prefix_len :: "string \<Rightarrow> string" where
  "strip_prefix_len a = takeWhile (\<lambda>c. c \<noteq> CHR ''/'') a"

fun attachment_ips :: "(string \<times> string list) list \<Rightarrow> string \<Rightarrow> string list result" where
  "attachment_ips [] overlay = Inr []"
| "attachment_ips ((name, addresses) # ns) overlay =
     (if name = overlay then
        (case addresses of
           [] \<Rightarrow> Inl IndexError
         | a # _ \<Rightarrow> (case attachment_ips ns overlay of
                       Inl e \<Rightarrow> Inl e
                     | Inr ips \<Rightarrow> Inr (strip_prefix_len a # ips)))
      else attachment_ips ns overlay)"

fun get_tasks_ips :: "task list \<Rightarrow> string \<Rightarrow> string list result" where
  "get_tasks_ips [] overlay = Inr []"
| "get_tasks_ips (t # ts) overlay =
     (case attachment_ips (attachments t) overlay of
        Inl e \<Rightarrow> Inl e
      | Inr ips \<Rightarrow> (case get_tasks_ips ts overlay of
                     Inl e \<Rightarrow> Inl e
                   | Inr rest \<Rightarrow> Inr (ips @ rest)))"

section \<open>The world the controller talks to\<close>

text \<open>
  Every call to the database driver or to the orchestrator and every \<^verbatim>\<open>time.sleep\<close> is
  an event. The world answers a call as a function of the number of events that came
  before it (the tick) and of the request, so it may answer the same request differently
  each time. A function of the controller takes the tick at which it starts and returns
  its result together with the events it caused, in order.
\<close>

record hello_doc =
  isWritablePrimary :: bool
  setName :: "string option"
  primary :: "string option"

datatype 'a reply = Ok 'a | Raise py_error

datatype shell_cmd = RsInitiate config | CreateRootUser string string

datatype event =
    Sleep nat
  | Inspect
  | Hello string "hello_doc reply"
  | GetConfig string "config reply"
  | Reconfig string config bool "unit reply"
  | ListContainers "(string list) reply"
  | Exec string shell_cmd "(int \<times> string) reply"

record world =
  swarm_at :: "nat \<Rightarrow> swarm"
  hello_at :: "nat \<Rightarrow> string \<Rightarrow> hello_doc reply"
  get_config_at :: "nat \<Rightarrow> string \<Rightarrow> config reply"
  reconfig_at :: "nat \<Rightarrow> string \<Rightarrow> config \<Rightarrow> bool \<Rightarrow> unit reply"
  containers_at :: "nat \<Rightarrow> (string list) reply"
  exec_at :: "nat \<Rightarrow> string \<Rightarrow> shell_cmd \<Rightarrow> (int \<times> string) reply"

section \<open>Startup wait\<close>

text \<open>
  The loop of \<^verbatim>\<open>__main__\<close>: while the service is down and attempts are left, sleep 10
  seconds, fetch the service, test it, and count the attempt.
\<close>

fun startup_wait ::
  "world \<Rightarrow> string \<Rightarrow> nat \<Rightarrow> service option \<Rightarrow> bool \<Rightarrow> nat
     \<Rightarrow> (nat \<times> service option \<times> bool) result \<times> event list" where
  "startup_wait w name 0 mongo_service service_down now = (Inr (0, mongo_service, service_down), [])"
| "startup_wait w name (Suc attempts) mongo_service service_down now =
     (if service_down then
        (let sw = swarm_at w (now + 1) in
         case get_mongo_service (services sw) name of
           Inl e \<Rightarrow> (Inl e, [Sleep 10, Inspect])
         | Inr s \<Rightarrow>
             (case is_service_up (Some s) (nodes sw) of
                Inl e \<Rightarrow> (Inl e, [Sleep 10, Inspect])
              | Inr up \<Rightarrow>
                  (let (r, evs) = startup_wait w name attempts (Some s) (\<not> up) (now + 2)
                   in (r, Sleep 10 # Inspect # evs))))
      else (Inr (Suc attempts, mongo_service, service_down), []))"

datatype outcome = SysExit int | Uncaught py_error | ManageReplica service

definition main_startup :: "world \<Rightarrow> string \<Rightarrow> outcome \<times> event list" where
  "main_startup w name =
     (case startup_wait w name 40 None True 0 of
        (Inl e, evs) \<Rightarrow> (if e = DockerException then SysExit 1 else Uncaught e, evs)
      | (Inr (attempts, mongo_service, service_down), evs) \<Rightarrow>
          (case mongo_service of
             None \<Rightarrow> (SysExit 1, evs)
           | Some s \<Rightarrow> (if attempts \<le> 0 then SysExit 1 else ManageReplica s, evs)))"

section \<open>Reading the existing configuration\<close>

text \<open>
  The inner loop of \<^verbatim>\<open>gather_configured_members_ips\<close>: an authenticated
  \<^verbatim>\<open>replSetGetConfig\<close> on each task ip in turn. The first configuration read ends the
  loop; a server-selection timeout and an operation failure are logged and skipped, the
  latter counted when it is the not-yet-initialized one; any other exception leaves the
  function. The result is \<open>(current_ips, config_found, not_yet_initialized_count)\<close>.
\<close>

definition config_member_ips :: "(string list \<Rightarrow> string list) \<Rightarrow> config \<Rightarrow> ip_set" where
  "config_member_ips ord cfg = pyset ord (map (\<lambda>m. host_ip (host m)) (members cfg))"

definition is_not_yet_initialized :: "int option \<Rightarrow> string \<Rightarrow> bool" where
  "is_not_yet_initialized code msg \<longleftrightarrow> code = Some 94 \<or> contains ''NotYetInitialized'' msg"

fun probe_nodes ::
  "(string list \<Rightarrow> string list) \<Rightarrow> world \<Rightarrow> string list \<Rightarrow> nat \<Rightarrow> nat
     \<Rightarrow> (ip_set \<times> bool \<times> nat) result \<times> event list" where
  "probe_nodes ord w [] not_yet_initialized_count now = (Inr ([], False, not_yet_initialized_count), [])"
| "probe_nodes ord w (t # ts) not_yet_initialized_count now =
     (let r = get_config_at w now t in
      case r of
        Ok cfg \<Rightarrow> (Inr (config_member_ips ord cfg, True, not_yet_initialized_count), [GetConfig t r])
      | Raise e \<Rightarrow>
          (let skip = (\<lambda>n. let (res, evs) = probe_nodes ord w ts n (now + 1)
                           in (res, GetConfig t r # evs))
           in case e of
                ServerSelectionTimeoutError \<Rightarrow> skip not_yet_initialized_count
              | OperationFailure code msg \<Rightarrow>
                  (if is_not_yet_initialized code msg then skip (not_yet_initialized_count + 1)
                   else skip not_yet_initialized_count)
              | _ \<Rightarrow> (Inl e, [GetConfig t r])))"

definition max_retries :: nat where
  "max_retries = 3"

definition retry_delay :: nat where
  "retry_delay = 10"

function gather_attempts ::
  "(string list \<Rightarrow> string list) \<Rightarrow> world \<Rightarrow> string list \<Rightarrow> nat \<Rightarrow> nat
     \<Rightarrow> ip_set result \<times> event list" where
  "gather_attempts ord w mongo_tasks_ips attempt now =
     (if attempt < max_retries then
        (case probe_nodes ord w mongo_tasks_ips 0 now of
           (Inl e, evs) \<Rightarrow> (Inl e, evs)
         | (Inr (current_ips, config_found, not_yet_initialized_count), evs) \<Rightarrow>
             (if config_found then (Inr current_ips, evs)
              else if not_yet_initialized_count = length mongo_tasks_ips \<and> attempt < max_retries - 1
              then (let (res, more_evs) =
                          gather_attempts ord w mongo_tasks_ips (attempt + 1)
                            (now + length evs + 1)
                    in (res, evs @ Sleep retry_delay # more_evs))
              else (Inr current_ips, evs)))
      else (Inr [], []))"
  by pat_completeness auto
termination
  by (relation "measure (\<lambda>(ord, w, ts, attempt, now). max_retries - attempt)") auto

declare gather_attempts.simps [simp del]

definition gather_configured_members_ips ::
  "(string list \<Rightarrow> string list) \<Rightarrow> world \<Rightarrow> string list \<Rightarrow> nat \<Rightarrow> ip_set result \<times> event list" where
  "gather_configured_members_ips ord w mongo_tasks_ips now =
     gather_attempts ord w mongo_tasks_ips 0 now"

section \<open>Finding the primary\<close>

text \<open>
  \<^verbatim>\<open>get_primary_ip\<close>: an unauthenticated \<^verbatim>\<open>hello\<close> on each ip in turn; the first
  node that reports itself writable is the primary. Every exception is caught.
\<close>

fun get_primary_ip :: "world \<Rightarrow> string list \<Rightarrow> nat \<Rightarrow> string option \<times> event list" where
  "get_primary_ip w [] now = (None, [])"
| "get_primary_ip w (t # ts) now =
     (let r = hello_at w now t in
      case r of
        Ok topo \<Rightarrow>
          (if isWritablePrimary topo then (Some t, [Hello t r])
           else (let (p, evs) = get_primary_ip w ts (now + 1) in (p, Hello t r # evs)))
      | Raise e \<Rightarrow> (let (p, evs) = get_primary_ip w ts (now + 1) in (p, Hello t r # evs)))"

section \<open>Reconfiguration\<close>

text \<open>
  The pieces of \<^verbatim>\<open>update_config\<close>. First the check whether every new node is
  uninitialized: a \<^verbatim>\<open>hello\<close> on each new ip, stopping at the first that reports a set
  name; exceptions are ignored.
\<close>

fun all_nodes_uninitialized :: "world \<Rightarrow> string list \<Rightarrow> nat \<Rightarrow> bool \<times> event list" where
  "all_nodes_uninitialized w [] now = (True, [])"
| "all_nodes_uninitialized w (t # ts) now =
     (let r = hello_at w now t;
          continue = (let (b, evs) = all_nodes_uninitialized w ts (now + 1) in (b, Hello t r # evs))
      in case r of
           Ok topo \<Rightarrow> (if setName topo \<noteq> None then (False, [Hello t r]) else continue)
         | Raise e \<Rightarrow> continue)"

text \<open>
  \<^verbatim>\<open>while attempts and not primary_ip\<close>: sleep 10 seconds and look for a primary among
  the new ips. An empty string is as false as \<^verbatim>\<open>None\<close> for \<^verbatim>\<open>not primary_ip\<close>.
\<close>

definition truthy :: "string option \<Rightarrow> bool" where
  "truthy p \<longleftrightarrow> p \<noteq> None \<and> p \<noteq> Some []"

fun wait_for_primary ::
  "world \<Rightarrow> nat \<Rightarrow> string option \<Rightarrow> string list \<Rightarrow> nat \<Rightarrow> string option \<times> event list" where
  "wait_for_primary w 0 primary_ip new_ips now = (primary_ip, [])"
| "wait_for_primary w (Suc attempts) primary_ip new_ips now =
     (if truthy primary_ip then (primary_ip, [])
      else (let (p, evs) = get_primary_ip w new_ips (now + 1);
                (p', more_evs) = wait_for_primary w attempts p new_ips (now + 1 + length evs)
            in (p', Sleep 10 # evs @ more_evs)))"

text \<open>
  The new member list: members on removed ips are dropped, one member per added ip is
  appended with ids counting up from the largest remaining id plus one (from 0 when none
  remains), and the version is incremented.
\<close>

fun py_max :: "int list \<Rightarrow> int" where
  "py_max [] = 0"
| "py_max (x # xs) = fold max xs x"

definition mutate_config :: "config \<Rightarrow> ip_set \<Rightarrow> ip_set \<Rightarrow> int \<Rightarrow> config" where
  "mutate_config cfg to_remove to_add mongo_port =
     (let kept = (if to_remove \<noteq> []
                  then filter (\<lambda>m. host_ip (host m) \<notin> set to_remove) (members cfg)
                  else members cfg);
          offset = (if kept \<noteq> [] then py_max (map m_id kept) + 1 else 0);
          new_members =
            (if to_add \<noteq> []
             then kept @ map (\<lambda>(i, ip). \<lparr>m_id = offset + int i, host = format_host ip mongo_port\<rparr>)
                             (enumerate 0 to_add)
             else kept)
      in cfg\<lparr>members := new_members, version := version cfg + 1\<rparr>)"

text \<open>
  \<^verbatim>\<open>replSetReconfig\<close>, at most three times: an operation failure costs an attempt and 5
  seconds; any other exception ends the loop (the handlers around it log it).
\<close>

fun apply_reconfig :: "world \<Rightarrow> nat \<Rightarrow> string \<Rightarrow> config \<Rightarrow> bool \<Rightarrow> nat \<Rightarrow> event list" where
  "apply_reconfig w 0 target cfg force now = []"
| "apply_reconfig w (Suc attempts) target cfg force now =
     (let r = reconfig_at w now target cfg force in
      case r of
        Ok u \<Rightarrow> [Reconfig target cfg force r]
      | Raise e \<Rightarrow>
          (case e of
             OperationFailure code msg \<Rightarrow>
               Reconfig target cfg force r # Sleep 5 # apply_reconfig w attempts target cfg force (now + 2)
           | _ \<Rightarrow> [Reconfig target cfg force r]))"

text \<open>
  The \<^verbatim>\<open>try\<close> block: read the configuration from the target, build the new one, apply
  it. Every exception in it is logged and swallowed.
\<close>

definition reconfigure_at ::
  "world \<Rightarrow> string \<Rightarrow> ip_set \<Rightarrow> ip_set \<Rightarrow> int \<Rightarrow> bool \<Rightarrow> nat \<Rightarrow> event list" where
  "reconfigure_at w target to_remove to_add mongo_port force now =
     (let r = get_config_at w now target in
      case r of
        Raise e \<Rightarrow> [GetConfig target r]
      | Ok cfg \<Rightarrow>
          GetConfig target r #
          apply_reconfig w 3 target (mutate_config cfg to_remove to_add mongo_port) force (now + 1))"

text \<open>
  Choosing the target when the primary is gone or unknown: wait for an election unless
  every new node is uninitialized; without a primary, take the first surviving old member,
  or else the first new ip. \<^verbatim>\<open>list(new_ips)[0]\<close> raises on an empty set.
\<close>

definition elect_target ::
  "(string list \<Rightarrow> string list) \<Rightarrow> world \<Rightarrow> ip_set \<Rightarrow> ip_set \<Rightarrow> nat \<Rightarrow> string result \<times> event list" where
  "elect_target ord w new_ips to_add now =
     (let (uninit, evs) = all_nodes_uninitialized w new_ips now;
          (primary_ip, more_evs) =
             (if uninit \<and> length new_ips > 0 then (None, [])
              else wait_for_primary w 6 None new_ips (now + length evs))
      in case primary_ip of
           Some p \<Rightarrow> (Inr p, evs @ more_evs)
         | None \<Rightarrow>
             (case pydiff ord new_ips to_add of
                m # _ \<Rightarrow> (Inr m, evs @ more_evs)
              | [] \<Rightarrow> (case new_ips of
                         [] \<Rightarrow> (Inl IndexError, evs @ more_evs)
                       | n # _ \<Rightarrow> (Inr n, evs @ more_evs))))"

definition update_config ::
  "(string list \<Rightarrow> string list) \<Rightarrow> world \<Rightarrow> string option \<Rightarrow> ip_set \<Rightarrow> ip_set \<Rightarrow> int \<Rightarrow> nat
     \<Rightarrow> unit result \<times> event list" where
  "update_config ord w primary_ip current_ips new_ips mongo_port now =
     (let to_remove = pydiff ord (pyset ord current_ips) (pyset ord new_ips);
          to_add = pydiff ord (pyset ord new_ips) (pyset ord current_ips);
          changes = (to_remove \<noteq> [] \<or> to_add \<noteq> [])
      in if \<not> (\<not> changes \<and> current_ips \<noteq> []) \<and> \<not> changes
         then (Inl AssertionError, [])
         else
           (let force = (if \<not> changes \<and> current_ips \<noteq> [] then True else False);
                force = (length to_remove > 1 \<or> length to_add > 1)
            in if (case primary_ip of None \<Rightarrow> True | Some p \<Rightarrow> p \<in> set to_remove)
               then (let force = True
                     in case elect_target ord w new_ips to_add now of
                          (Inl e, evs) \<Rightarrow> (Inl e, evs)
                        | (Inr target, evs) \<Rightarrow>
                            (Inr (), evs @ reconfigure_at w target to_remove to_add mongo_port force
                                             (now + length evs)))
               else (Inr (), reconfigure_at w (the primary_ip) to_remove to_add mongo_port force now)))"

section \<open>The watch loop\<close>

text \<open>
  \<^verbatim>\<open>get_tasks_ips(get_running_tasks(mongo_service), overlay_network_name)\<close> at a tick.
  The handle \<open>mongo_service\<close> names the service; its tasks at a tick are those of the
  service of that name in the swarm then, none if it is gone.
\<close>

definition observed_task_ips :: "world \<Rightarrow> service \<Rightarrow> string \<Rightarrow> nat \<Rightarrow> string list result" where
  "observed_task_ips w mongo_service overlay_network_name tick =
     get_tasks_ips
       (case get_mongo_service (services (swarm_at w tick)) (s_name mongo_service) of
          Inr s \<Rightarrow> get_running_tasks s
        | Inl e \<Rightarrow> [])
       overlay_network_name"

text \<open>
  One iteration of the loop at the end of \<^verbatim>\<open>manage_replica\<close>: sleep 10 seconds, read
  the ips of the running tasks, reconfigure if they differ from the known members, then
  take them as the known members and look for the primary among them.
\<close>

record watch_state =
  current_member_ips :: ip_set
  current_primary_ip :: "string option"

definition watch_iteration ::
  "(string list \<Rightarrow> string list) \<Rightarrow> world \<Rightarrow> service \<Rightarrow> string \<Rightarrow> int \<Rightarrow> watch_state \<Rightarrow> nat
     \<Rightarrow> watch_state result \<times> event list" where
  "watch_iteration ord w mongo_service overlay_network_name mongo_port st now =
     (case observed_task_ips w mongo_service overlay_network_name (now + 1) of
        Inl e \<Rightarrow> (Inl e, [Sleep 10, Inspect])
      | Inr ips \<Rightarrow>
          (let new_member_ips = pyset ord ips;
               (res, evs) =
                  (if set (current_member_ips st) \<noteq> set new_member_ips
                   then update_config ord w (current_primary_ip st) (current_member_ips st)
                          new_member_ips mongo_port (now + 2)
                   else (Inr (), []))
           in case res of
                Inl e \<Rightarrow> (Inl e, Sleep 10 # Inspect # evs)
              | Inr u \<Rightarrow>
                  (let (p, more_evs) = get_primary_ip w new_member_ips (now + 2 + length evs)
                   in (Inr \<lparr>current_member_ips = new_member_ips, current_primary_ip = p\<rparr>,
                       Sleep 10 # Inspect # evs @ more_evs))))"

section \<open>First-time initiation\<close>

text \<open>
  \<^verbatim>\<open>reconfigure_replica_set\<close>: the driver's \<^verbatim>\<open>replSetReconfig\<close> with
  \<^verbatim>\<open>force=True\<close>; only an operation failure is caught.
\<close>

definition reconfigure_replica_set :: "world \<Rightarrow> string \<Rightarrow> config \<Rightarrow> nat \<Rightarrow> unit result \<times> event list" where
  "reconfigure_replica_set w primary_ip cfg now =
     (let r = reconfig_at w now primary_ip cfg True in
      case r of
        Ok u \<Rightarrow> (Inr (), [Reconfig primary_ip cfg True r])
      | Raise e \<Rightarrow>
          (case e of
             OperationFailure code msg \<Rightarrow> (Inr (), [Reconfig primary_ip cfg True r])
           | _ \<Rightarrow> (Inl e, [Reconfig primary_ip cfg True r])))"

text \<open>\<^verbatim>\<open>c.name.split('.')[0]\<close> and the search for the service's container.\<close>

definition name_stem :: "string \<Rightarrow> string" where
  "name_stem n = takeWhile (\<lambda>c. c \<noteq> CHR ''.'') n"

definition service_container :: "string list \<Rightarrow> string \<Rightarrow> string option" where
  "service_container names mongo_service_name = find (\<lambda>n. name_stem n = mongo_service_name) names"

text \<open>
  \<^verbatim>\<open>initialize_mongodb_admin\<close>: up to 8 times, sleep 10 seconds and ask the bootstrap
  node for the topology; once it names a primary and the service's container is found,
  create the root user in it and return. Every exception is caught and costs the attempt.
\<close>

definition topology_primary_ip :: "hello_doc \<Rightarrow> string option" where
  "topology_primary_ip topo =
     (case primary topo of
        None \<Rightarrow> None
      | Some h \<Rightarrow> if h \<noteq> [] then Some (host_ip h) else None)"

fun initialize_mongodb_admin ::
  "world \<Rightarrow> nat \<Rightarrow> string \<Rightarrow> string \<Rightarrow> string \<Rightarrow> string \<Rightarrow> nat \<Rightarrow> event list" where
  "initialize_mongodb_admin w 0 primary_ip user pwd mongo_service_name now = []"
| "initialize_mongodb_admin w (Suc attempts) primary_ip user pwd mongo_service_name now =
     (let r = hello_at w (now + 1) primary_ip in
      case r of
        Raise e \<Rightarrow>
          Sleep 10 # Hello primary_ip r #
          initialize_mongodb_admin w attempts primary_ip user pwd mongo_service_name (now + 2)
      | Ok topo \<Rightarrow>
          (if truthy (topology_primary_ip topo) then
             (let c = containers_at w (now + 2) in
              case c of
                Raise e \<Rightarrow>
                  Sleep 10 # Hello primary_ip r # ListContainers c #
                  initialize_mongodb_admin w attempts primary_ip user pwd mongo_service_name (now + 3)
              | Ok names \<Rightarrow>
                  (case service_container names mongo_service_name of
                     Some primary_container \<Rightarrow>
                       [Sleep 10, Hello primary_ip r, ListContainers c,
                        Exec primary_container (CreateRootUser user pwd)
                          (exec_at w (now + 3) primary_container (CreateRootUser user pwd))]
                   | None \<Rightarrow>
                       Sleep 10 # Hello primary_ip r # ListContainers c #
                       initialize_mongodb_admin w attempts primary_ip user pwd mongo_service_name
                         (now + 3)))
           else
             Sleep 10 # Hello primary_ip r #
             initialize_mongodb_admin w attempts primary_ip user pwd mongo_service_name (now + 2)))"

text \<open>
  \<^verbatim>\<open>init_replica\<close>. Without tasks or ips it sleeps through its six retries and returns.
  Otherwise it builds the fresh configuration, takes the first ip as bootstrap target,
  sleeps 15 seconds, lists the containers (twice: once for the log), and runs
  \<^verbatim>\<open>rs.initiate(config)\<close> in the service's container. A non-zero exit code is raised as
  a \<^verbatim>\<open>PyMongoError\<close> carrying the output, and handled at once: when the output contains
  \<^verbatim>\<open>replSetInitiate requires authentication\<close>, the set is reconfigured through the driver
  and the function returns; any other output is logged. The Docker SDK raises only its own
  exceptions, which that handler does not catch.
\<close>

definition auth_required :: string where
  "auth_required = ''replSetInitiate requires authentication''"

definition init_replica ::
  "world \<Rightarrow> task list \<Rightarrow> ip_set \<Rightarrow> string \<Rightarrow> int \<Rightarrow> string \<Rightarrow> string \<Rightarrow> string \<Rightarrow> nat
     \<Rightarrow> unit result \<times> event list" where
  "init_replica w mongo_tasks mongo_tasks_ips replicaset_name mongo_port user pwd mongo_service_name now =
     (case mongo_tasks_ips of
        [] \<Rightarrow> (Inr (), replicate 6 (Sleep 10))
      | primary_ip # _ \<Rightarrow>
          if mongo_tasks = [] then (Inr (), replicate 6 (Sleep 10))
          else
            (let cfg = create_mongo_config mongo_tasks_ips replicaset_name mongo_port;
                 all_containers = containers_at w (now + 1);
                 c = containers_at w (now + 2)
             in case all_containers of
                  Raise e \<Rightarrow> (Inl e, [Sleep 15, ListContainers all_containers])
                | Ok all_names \<Rightarrow>
                    (case c of
                       Raise e \<Rightarrow> (Inl e, [Sleep 15, ListContainers all_containers, ListContainers c])
                     | Ok names \<Rightarrow>
                         (let before = [Sleep 15, ListContainers all_containers, ListContainers c]
                          in case service_container names mongo_service_name of
                               None \<Rightarrow> (Inr (), before)
                             | Some mongoContainer \<Rightarrow>
                                 (let x = exec_at w (now + 3) mongoContainer (RsInitiate cfg);
                                      started = before @ [Exec mongoContainer (RsInitiate cfg) x];
                                      admin = initialize_mongodb_admin w 8 primary_ip user pwd
                                                mongo_service_name (now + 4)
                                  in case x of
                                       Raise e \<Rightarrow> (Inl e, started)
                                     | Ok (exit_code, output) \<Rightarrow>
                                         (if exit_code \<noteq> 0 then
                                            (if contains auth_required output then
                                               (let (res, evs) = reconfigure_replica_set w primary_ip cfg (now + 4)
                                                in (res, started @ evs))
                                             else (Inr (), started @ admin))
                                          else (Inr (), started @ admin)))))))"

section \<open>Concrete inputs\<close>

text \<open>
  A global service \<^verbatim>\<open>mongo\<close> with one task on each of two active nodes, the same
  service while its second task is still being prepared, a service in a job mode, and a
  world in which no database node answers.
\<close>

definition global_service :: service where
  "global_service = \<lparr>s_name = ''mongo'',
      s_tasks = [\<lparr>task_id = ''t1'', node_id = Some ''n1'', desired_state = ''running'',
                  state = ''running'', attachments = [(''net'', [''10.0.0.5/24''])]\<rparr>,
                 \<lparr>task_id = ''t2'', node_id = Some ''n2'', desired_state = ''running'',
                  state = ''running'', attachments = [(''net'', [''10.0.0.6/24''])]\<rparr>],
      s_mode = [''Global'' \<mapsto> Map.empty]\<rparr>"

definition starting_service :: service where
  "starting_service = global_service\<lparr>s_tasks :=
      [\<lparr>task_id = ''t1'', node_id = Some ''n1'', desired_state = ''running'',
        state = ''running'', attachments = [(''net'', [''10.0.0.5/24''])]\<rparr>,
       \<lparr>task_id = ''t2'', node_id = Some ''n2'', desired_state = ''running'',
        state = ''preparing'', attachments = []\<rparr>]\<rparr>"

definition job_service :: service where
  "job_service = global_service\<lparr>s_mode := [''ReplicatedJob'' \<mapsto> Map.empty]\<rparr>"

text \<open>The job service with a third task that waits for a node and has no \<^verbatim>\<open>NodeID\<close> yet.\<close>

definition pending_job_service :: service where
  "pending_job_service = job_service\<lparr>s_tasks :=
      [\<lparr>task_id = ''t1'', node_id = Some ''n1'', desired_state = ''running'',
        state = ''running'', attachments = [(''net'', [''10.0.0.5/24''])]\<rparr>,
       \<lparr>task_id = ''t2'', node_id = Some ''n2'', desired_state = ''running'',
        state = ''running'', attachments = [(''net'', [''10.0.0.6/24''])]\<rparr>,
       \<lparr>task_id = ''t3'', node_id = None, desired_state = ''running'',
        state = ''pending'', attachments = []\<rparr>]\<rparr>"

definition two_nodes :: "node list" where
  "two_nodes = [\<lparr>n_id = ''n1'', availability = ''active'', n_state = ''ready''\<rparr>,
                \<lparr>n_id = ''n2'', availability = ''active'', n_state = ''ready''\<rparr>,
                \<lparr>n_id = ''n3'', availability = ''drain'', n_state = ''ready''\<rparr>]"

definition silent_world :: world where
  "silent_world = \<lparr>swarm_at = (\<lambda>t. \<lparr>services = [], nodes = []\<rparr>),
      hello_at = (\<lambda>t ip. Raise ServerSelectionTimeoutError),
      get_config_at = (\<lambda>t ip. Raise ServerSelectionTimeoutError),
      reconfig_at = (\<lambda>t ip cfg force. Raise ServerSelectionTimeoutError),
      containers_at = (\<lambda>t. Ok []),
      exec_at = (\<lambda>t c cmd. Raise DockerException)\<rparr>"

text \<open>
  The service is fully up from tick 79 on, the tick of the 40th check of the startup wait
  (check \<open>k\<close> reads the swarm at tick \<open>2k - 1\<close>, after \<open>k\<close> sleeps and \<open>k - 1\<close> checks).
\<close>

definition late_world :: world where
  "late_world = silent_world\<lparr>swarm_at :=
      (\<lambda>t. \<lparr>services = [if t < 79 then starting_service else global_service],
            nodes = two_nodes\<rparr>)\<rparr>"

definition service_down_at :: "world \<Rightarrow> string \<Rightarrow> nat \<Rightarrow> bool" where
  "service_down_at w name t \<longleftrightarrow>
     (case get_mongo_service (services (swarm_at w t)) name of
        Inl e \<Rightarrow> False
      | Inr s \<Rightarrow> is_service_up (Some s) (nodes (swarm_at w t)) = Inr False)"

text \<open>
  The reference replica set \<^verbatim>\<open>rs0\<close> on port 27017, a world in which it runs with
  \<^verbatim>\<open>10.0.0.5\<close> as its primary and accepts every reconfiguration, and a world in which
  only \<^verbatim>\<open>10.0.0.7\<close> is left and no primary gets elected.
\<close>

definition rs0_config :: config where
  "rs0_config = create_mongo_config [''10.0.0.5'', ''10.0.0.6'', ''10.0.0.7''] ''rs0'' 27017"

definition steady_world :: world where
  "steady_world = silent_world\<lparr>
      hello_at := (\<lambda>t ip. Ok \<lparr>isWritablePrimary = (ip = ''10.0.0.5''), setName = Some ''rs0'',
                              primary = Some ''10.0.0.5:27017''\<rparr>),
      get_config_at := (\<lambda>t ip. Ok rs0_config),
      reconfig_at := (\<lambda>t ip cfg force. Ok ())\<rparr>"

definition orphaned_world :: world where
  "orphaned_world = steady_world\<lparr>
      hello_at := (\<lambda>t ip. if ip = ''10.0.0.7''
                           then Ok \<lparr>isWritablePrimary = False, setName = Some ''rs0'', primary = None\<rparr>
                           else Raise ServerSelectionTimeoutError)\<rparr>"

section \<open>Notions used in the statements\<close>

fun is_reconfig :: "event \<Rightarrow> bool" where
  "is_reconfig (Reconfig t c f r) = True"
| "is_reconfig e = False"

text \<open>
  The members of a configuration whose ip is not among the removed ones, and the id that
  the first added member gets next to them.
\<close>

definition kept_members :: "config \<Rightarrow> string set \<Rightarrow> member list" where
  "kept_members cfg removed = filter (\<lambda>m. host_ip (host m) \<notin> removed) (members cfg)"

definition next_member_id :: "member list \<Rightarrow> int" where
  "next_member_id kept = (if kept = [] then 0 else Max (m_id ` set kept) + 1)"

text \<open>
  A sequence of mutations, each applied to the configuration that the one before it
  produced.
\<close>

fun run_mutations :: "config \<Rightarrow> (ip_set \<times> ip_set) list \<Rightarrow> int \<Rightarrow> config" where
  "run_mutations cfg [] mongo_port = cfg"
| "run_mutations cfg ((to_remove, to_add) # steps) mongo_port =
     run_mutations (mutate_config cfg to_remove to_add mongo_port) steps mongo_port"

text \<open>
  The ips probed and the seconds slept in a sequence of events; what it means that no
  probe in it returned a configuration; the exceptions a probe may raise without ending
  \<^verbatim>\<open>gather_configured_members_ips\<close>; and the not-yet-initialized answer of a node.
\<close>

fun probed_ips :: "event list \<Rightarrow> string list" where
  "probed_ips [] = []"
| "probed_ips (GetConfig t r # evs) = t # probed_ips evs"
| "probed_ips (e # evs) = probed_ips evs"

fun slept :: "event list \<Rightarrow> nat list" where
  "slept [] = []"
| "slept (Sleep n # evs) = n # slept evs"
| "slept (e # evs) = slept evs"

definition no_config_read :: "event list \<Rightarrow> bool" where
  "no_config_read evs \<longleftrightarrow> (\<forall>e \<in> set evs. case e of GetConfig t (Ok cfg) \<Rightarrow> False | _ \<Rightarrow> True)"

definition ignored_error :: "py_error \<Rightarrow> bool" where
  "ignored_error e \<longleftrightarrow>
     (case e of ServerSelectionTimeoutError \<Rightarrow> True | OperationFailure code msg \<Rightarrow> True | _ \<Rightarrow> False)"

definition not_yet_initialized_reply :: "config reply \<Rightarrow> bool" where
  "not_yet_initialized_reply r \<longleftrightarrow>
     (case r of
        Raise (OperationFailure code msg) \<Rightarrow> is_not_yet_initialized code msg
      | _ \<Rightarrow> False)"

text \<open>
  A world in which \<^verbatim>\<open>10.0.0.5\<close> has not loaded its configuration yet while the other
  nodes return that of \<^verbatim>\<open>rs0\<close>, and a world in which no node has one.
\<close>

definition not_yet_initialized :: py_error where
  "not_yet_initialized = OperationFailure (Some 94) ''no replset config has been received''"

definition joining_world :: world where
  "joining_world = silent_world\<lparr>get_config_at :=
      (\<lambda>t ip. if ip = ''10.0.0.5'' then Raise not_yet_initialized else Ok rs0_config)\<rparr>"

definition blank_world :: world where
  "blank_world = silent_world\<lparr>get_config_at := (\<lambda>t ip. Raise not_yet_initialized)\<rparr>"

text \<open>
  A world in which \<^verbatim>\<open>10.0.0.5\<close> cannot be selected within the server-selection
  timeout, and one in which it accepts the connection but does not answer within the
  socket timeout; in both the other nodes return the configuration of \<^verbatim>\<open>rs0\<close>.
\<close>

definition unreachable_world :: world where
  "unreachable_world = silent_world\<lparr>get_config_at :=
      (\<lambda>t ip. if ip = ''10.0.0.5'' then Raise ServerSelectionTimeoutError else Ok rs0_config)\<rparr>"

definition hung_world :: world where
  "hung_world = silent_world\<lparr>get_config_at :=
      (\<lambda>t ip. if ip = ''10.0.0.5'' then Raise NetworkTimeout else Ok rs0_config)\<rparr>"

text \<open>
  The service grown to four tasks, and a world in which \<^verbatim>\<open>rs0\<close> runs on its three
  members but rejects every reconfiguration.
\<close>

definition grown_service :: service where
  "grown_service = \<lparr>s_name = ''mongo'',
      s_tasks = map (\<lambda>(t, n, ip). \<lparr>task_id = t, node_id = Some n, desired_state = ''running'',
                                    state = ''running'', attachments = [(''net'', [ip])]\<rparr>)
                  [(''t1'', ''n1'', ''10.0.0.5/24''), (''t2'', ''n2'', ''10.0.0.6/24''),
                   (''t3'', ''n3'', ''10.0.0.7/24''), (''t4'', ''n4'', ''10.0.0.8/24'')],
      s_mode = [''Global'' \<mapsto> Map.empty]\<rparr>"

definition config_rejected :: py_error where
  "config_rejected = OperationFailure (Some 103) ''NewReplicaSetConfigurationIncompatible''"

definition rejecting_world :: world where
  "rejecting_world = steady_world\<lparr>
      swarm_at := (\<lambda>t. \<lparr>services = [grown_service], nodes = []\<rparr>),
      reconfig_at := (\<lambda>t ip cfg force. Raise config_rejected)\<rparr>"

definition rs0_grown :: config where
  "rs0_grown = \<lparr>c_id = ''rs0'',
             members = [\<lparr>m_id = 0, host = ''10.0.0.5:27017''\<rparr>,
                        \<lparr>m_id = 1, host = ''10.0.0.6:27017''\<rparr>,
                        \<lparr>m_id = 2, host = ''10.0.0.7:27017''\<rparr>,
                        \<lparr>m_id = 3, host = ''10.0.0.8:27017''\<rparr>],
             version = 2\<rparr>"

text \<open>
  A world after redeployment: the nodes hold the root user of the former set, so the
  shell's \<^verbatim>\<open>rs.initiate\<close> is refused for lack of authentication; and a world in which
  it is refused because the set is initialized already.
\<close>

definition redeployed_world :: world where
  "redeployed_world = silent_world\<lparr>
      containers_at := (\<lambda>t. Ok [''proxy.1.x1'', ''mongo.1.abc'']),
      exec_at := (\<lambda>t c cmd. Ok (1, ''MongoServerError: command replSetInitiate requires authentication'')),
      reconfig_at := (\<lambda>t ip cfg force. Ok ())\<rparr>"

definition one_task :: task where
  "one_task = \<lparr>task_id = ''t1'', node_id = Some ''n1'', desired_state = ''running'',
               state = ''running'', attachments = [(''net'', [''10.0.1.5/24''])]\<rparr>"

definition initiated_world :: world where
  "initiated_world = redeployed_world\<lparr>
      exec_at := (\<lambda>t c cmd. Ok (1, ''MongoServerError: already initialized''))\<rparr>"

fun is_initiate :: "event \<Rightarrow> bool" where
  "is_initiate (Exec c (RsInitiate cfg) r) = True"
| "is_initiate e = False"

section \<open>Fresh configuration\<close>

lemma create_mongo_config_members:
  "members (create_mongo_config ips name port) =
     map (\<lambda>i. \<lparr>m_id = int i, host = format_host (ips ! i) port\<rparr>) [0..<length ips]"
  by (rule nth_equalityI) (simp_all add: create_mongo_config_def nth_enumerate_eq)

text \<open>
  C5. The fresh configuration built for a sequence of \<open>n\<close> ips has \<open>n\<close> members; the
  \<open>i\<close>-th member has id \<open>i\<close> and host \<open>ip:port\<close> for the \<open>i\<close>-th ip given, so the ids are
  \<open>0..n-1\<close> in the order of the ips; the \<open>_id\<close> of the document is the set name and its
  version is 1.
\<close>

theorem create_mongo_config_fresh:
  "ips \<noteq> [] \<Longrightarrow>
     length (members (create_mongo_config ips name port)) = length ips
   \<and> (\<forall>i < length ips.
         members (create_mongo_config ips name port) ! i
           = \<lparr>m_id = int i, host = ips ! i @ '':'' @ str_int port\<rparr>)
   \<and> map m_id (members (create_mongo_config ips name port)) = map int [0..<length ips]
   \<and> c_id (create_mongo_config ips name port) = name
   \<and> version (create_mongo_config ips name port) = 1"
  by (simp add: create_mongo_config_members format_host_def comp_def)
    (simp add: create_mongo_config_def)

theorem create_mongo_config_fresh_witness:
  "[''10.0.0.5'', ''10.0.0.6'', ''10.0.0.7''] \<noteq> []
   \<and> create_mongo_config [''10.0.0.5'', ''10.0.0.6'', ''10.0.0.7''] ''rs0'' 27017
       = \<lparr>c_id = ''rs0'',
          members = [\<lparr>m_id = 0, host = ''10.0.0.5:27017''\<rparr>,
                     \<lparr>m_id = 1, host = ''10.0.0.6:27017''\<rparr>,
                     \<lparr>m_id = 2, host = ''10.0.0.7:27017''\<rparr>],
          version = 1\<rparr>
   \<and> map m_id (members (create_mongo_config [''10.0.0.5'', ''10.0.0.6'', ''10.0.0.7''] ''rs0'' 27017))
       = [0, 1, 2]"
  using create_mongo_config_fresh [of "[''10.0.0.5'', ''10.0.0.6'', ''10.0.0.7'']" "''rs0''" 27017]
  by (simp add: create_mongo_config_def format_host_def str_int_def str_nat.simps digit_char_def
      upt_rec)

section \<open>Service health\<close>

lemma add_assigned_nodes_eq:
  "add_assigned_nodes ts A
     = (if \<exists>t \<in> set ts. node_id t = None then Inl KeyError
        else Inr (A \<union> {n. \<exists>t \<in> set ts. node_id t = Some n}))"
  by (induction ts arbitrary: A) (auto split: option.splits)

lemma get_assigned_nodes_eq:
  "get_assigned_nodes svc
     = (if \<exists>t \<in> set (s_tasks svc). node_id t = None then Inl KeyError
        else Inr {n. \<exists>t \<in> set (s_tasks svc). node_id t = Some n})"
  by (simp add: get_assigned_nodes_def add_assigned_nodes_eq)

text \<open>
  C10, as stated, fails: \<open>is_service_up\<close> is not total. It reads the \<^verbatim>\<open>NodeID\<close> of
  every task of the service before it looks at the mode, and that raises \<^verbatim>\<open>KeyError\<close>
  on a task that is not assigned to a node, here for a service whose mode is neither
  \<^verbatim>\<open>Replicated\<close> nor \<^verbatim>\<open>Global\<close>.
\<close>

theorem is_service_up_unassigned_task:
  "s_mode pending_job_service ''Replicated'' = None
   \<and> s_mode pending_job_service ''Global'' = None
   \<and> is_service_up (Some pending_job_service) two_nodes = Inl KeyError"
  by (simp add: pending_job_service_def job_service_def global_service_def is_service_up_def
      get_assigned_nodes_def)

text \<open>
  C10, amended. On the tasks and nodes that the orchestrator returned, \<open>is_service_up\<close>
  returns \<open>False\<close>, and raises nothing, when there is no service. For a service it
  raises \<^verbatim>\<open>KeyError\<close> when one of its tasks has no \<^verbatim>\<open>NodeID\<close>, whatever its mode,
  and it returns a value exactly when every task has a
  \<^verbatim>\<open>NodeID\<close> and the mode is not a \<^verbatim>\<open>Replicated\<close> entry without \<^verbatim>\<open>Replicas\<close>. When
  every task has a \<^verbatim>\<open>NodeID\<close>, it returns \<open>False\<close> for a mode with neither a
  \<^verbatim>\<open>Replicated\<close> nor a \<^verbatim>\<open>Global\<close> entry, and for a global service it returns whether the
  number of running tasks equals the number of assigned nodes that are active and not
  down.
\<close>

theorem is_service_up_modes:
  "is_service_up None ns = Inr False
   \<and> ((\<exists>t \<in> set (s_tasks svc). node_id t = None)
        \<longrightarrow> is_service_up (Some svc) ns = Inl KeyError)
   \<and> ((\<exists>b. is_service_up (Some svc) ns = Inr b)
        \<longleftrightarrow> (\<forall>t \<in> set (s_tasks svc). node_id t \<noteq> None)
            \<and> (\<forall>replicated. s_mode svc ''Replicated'' = Some replicated
                   \<longrightarrow> replicated ''Replicas'' \<noteq> None))
   \<and> ((\<forall>t \<in> set (s_tasks other). node_id t \<noteq> None)
        \<and> s_mode other ''Replicated'' = None \<and> s_mode other ''Global'' = None
        \<longrightarrow> is_service_up (Some other) ns = Inr False)
   \<and> ((\<forall>t \<in> set (s_tasks glob). node_id t \<noteq> None)
        \<and> s_mode glob ''Replicated'' = None \<and> s_mode glob ''Global'' \<noteq> None
        \<longrightarrow> is_service_up (Some glob) ns
              = Inr (length (get_running_tasks glob)
                       = card {n. (\<exists>t \<in> set (s_tasks glob). node_id t = Some n)
                                 \<and> (\<exists>nd \<in> set ns. n_id nd = n \<and> availability nd = ''active''
                                                \<and> n_state nd \<noteq> ''down'')}))"
proof -
  have eq: "active_nodes ns \<inter> {n. \<exists>t \<in> set (s_tasks glob). node_id t = Some n}
          = {n. (\<exists>t \<in> set (s_tasks glob). node_id t = Some n)
               \<and> (\<exists>nd \<in> set ns. n_id nd = n \<and> availability nd = ''active''
                              \<and> n_state nd \<noteq> ''down'')}"
    by (auto simp: active_nodes_def)
  have 1: "is_service_up None ns = Inr False"
    by (simp add: is_service_up_def)
  have 2: "is_service_up (Some svc) ns = Inl KeyError"
    if "\<exists>t \<in> set (s_tasks svc). node_id t = None"
    using that by (simp add: is_service_up_def get_assigned_nodes_eq)
  have 3: "(\<exists>b. is_service_up (Some svc) ns = Inr b)
        \<longleftrightarrow> (\<forall>t \<in> set (s_tasks svc). node_id t \<noteq> None)
            \<and> (\<forall>replicated. s_mode svc ''Replicated'' = Some replicated
                   \<longrightarrow> replicated ''Replicas'' \<noteq> None)"
    by (auto simp: is_service_up_def get_assigned_nodes_eq Let_def split: option.splits)
  have 4: "is_service_up (Some other) ns = Inr False"
    if "\<forall>t \<in> set (s_tasks other). node_id t \<noteq> None"
      and "s_mode other ''Replicated'' = None" and "s_mode other ''Global'' = None"
    using that by (simp add: is_service_up_def get_assigned_nodes_eq)
  have 5: "is_service_up (Some glob) ns
              = Inr (length (get_running_tasks glob)
                       = card {n. (\<exists>t \<in> set (s_tasks glob). node_id t = Some n)
                                 \<and> (\<exists>nd \<in> set ns. n_id nd = n \<and> availability nd = ''active''
                                                \<and> n_state nd \<noteq> ''down'')})"
    if "\<forall>t \<in> set (s_tasks glob). node_id t \<noteq> None"
      and "s_mode glob ''Replicated'' = None" and "s_mode glob ''Global'' \<noteq> None"
    using that by (auto simp: is_service_up_def get_assigned_nodes_eq eq Let_def)
  from 1 2 3 4 5 show ?thesis by blast
qed

theorem is_service_up_modes_witness:
  "is_service_up (Some pending_job_service) two_nodes = Inl KeyError
   \<and> s_mode job_service ''Replicated'' = None \<and> s_mode job_service ''Global'' = None
   \<and> is_service_up (Some job_service) two_nodes = Inr False
   \<and> s_mode global_service ''Replicated'' = None \<and> s_mode global_service ''Global'' \<noteq> None
   \<and> is_service_up (Some global_service) two_nodes = Inr True
   \<and> is_service_up (Some global_service) (tl two_nodes) = Inr False"
  using is_service_up_modes [of two_nodes pending_job_service job_service global_service]
    is_service_up_modes [of "tl two_nodes" pending_job_service job_service global_service]
  by (simp add: pending_job_service_def job_service_def global_service_def two_nodes_def
      is_service_up_def get_running_tasks_def get_assigned_nodes_def active_nodes_def)

section \<open>The startup budget\<close>

text \<open>While every check finds the service down, the loop goes on to the next attempt.\<close>

lemma startup_wait_down:
  "(\<forall>j<a. service_down_at w name (now + 2 * j + 1)) \<Longrightarrow>
   \<exists>svc'. startup_wait w name (a + b) svc True now
        = (fst (startup_wait w name b svc' True (now + 2 * a)),
           concat (replicate a [Sleep 10, Inspect])
             @ snd (startup_wait w name b svc' True (now + 2 * a)))"
proof (induction a arbitrary: now svc)
  case 0
  then show ?case by (auto intro!: exI [of _ svc])
next
  case (Suc a)
  from Suc.prems have d: "service_down_at w name (now + 1)" by force
  then obtain s where s: "get_mongo_service (services (swarm_at w (now + 1))) name = Inr s"
     and up: "is_service_up (Some s) (nodes (swarm_at w (now + 1))) = Inr False"
    by (auto simp: service_down_at_def split: sum.splits)
  have "\<forall>j<a. service_down_at w name ((now + 2) + 2 * j + 1)"
    using Suc.prems by (auto simp: less_Suc_eq_0_disj)
  from Suc.IH [OF this, of "Some s"] obtain svc' where
    "startup_wait w name (a + b) (Some s) True (now + 2)
        = (fst (startup_wait w name b svc' True (now + 2 + 2 * a)),
           concat (replicate a [Sleep 10, Inspect])
             @ snd (startup_wait w name b svc' True (now + 2 + 2 * a)))"
    by blast
  then show ?case
    using s up by (auto simp: Let_def add.commute add.left_commute intro!: exI [of _ svc'])
qed

lemma late_world_down: "t < 79 \<Longrightarrow> service_down_at late_world ''mongo'' t"
  by (simp add: service_down_at_def late_world_def silent_world_def get_mongo_service_def
      starting_service_def global_service_def two_nodes_def is_service_up_def
      get_running_tasks_def get_assigned_nodes_def active_nodes_def)

lemma late_world_up:
  "get_mongo_service (services (swarm_at late_world 79)) ''mongo'' = Inr global_service"
  "is_service_up (Some global_service) (nodes (swarm_at late_world 79)) = Inr True"
  by (simp_all add: late_world_def silent_world_def get_mongo_service_def
      global_service_def two_nodes_def is_service_up_def
      get_running_tasks_def get_assigned_nodes_def active_nodes_def)

lemma count_inspections:
  "length (filter (\<lambda>e. e = Inspect) (concat (replicate n [Sleep 10, Inspect]))) = n"
  by (induction n) auto

text \<open>
  C8. The code departs from the claim when the service comes up on the last attempt: in
  \<open>late_world\<close> the first 39 checks find the service down and the 40th finds it fully up,
  within the budget of 40 attempts, and the process exits with code 1 all the same, since
  the attempt counter has reached 0 by then.
\<close>

theorem startup_wait_last_attempt:
  "is_service_up (Some global_service) (nodes (swarm_at late_world 79)) = Inr True
   \<and> fst (main_startup late_world ''mongo'') = SysExit 1
   \<and> length (filter (\<lambda>e. e = Inspect) (snd (main_startup late_world ''mongo''))) = 40"
proof -
  have "\<forall>j<39. service_down_at late_world ''mongo'' (0 + 2 * j + 1)"
    by (auto intro: late_world_down)
  from startup_wait_down [OF this, of 1 None] obtain svc' where
    e: "startup_wait late_world ''mongo'' 40 None True 0
        = (fst (startup_wait late_world ''mongo'' 1 svc' True 78),
           concat (replicate 39 [Sleep 10, Inspect])
             @ snd (startup_wait late_world ''mongo'' 1 svc' True 78))"
    by auto
  have l: "startup_wait late_world ''mongo'' 1 svc' True 78
         = (Inr (0, Some global_service, False), [Sleep 10, Inspect])"
    using late_world_up by (simp add: Let_def)
  show ?thesis
    unfolding main_startup_def e l using late_world_up(2) by (simp add: count_inspections)
qed

section \<open>Facts about Python sets\<close>

lemma iteration_order_set: "iteration_order ord \<Longrightarrow> set (ord xs) = set xs"
  by (simp add: iteration_order_def)

lemma iteration_order_distinct: "iteration_order ord \<Longrightarrow> distinct xs \<Longrightarrow> distinct (ord xs)"
  by (simp add: iteration_order_def)

lemma set_pyset: "iteration_order ord \<Longrightarrow> set (pyset ord xs) = set xs"
  by (simp add: pyset_def iteration_order_set)

lemma distinct_pyset: "iteration_order ord \<Longrightarrow> distinct (pyset ord xs)"
  by (simp add: pyset_def iteration_order_distinct)

lemma set_pydiff: "iteration_order ord \<Longrightarrow> set (pydiff ord a b) = set a - set b"
  by (auto simp: pydiff_def iteration_order_set)

lemma distinct_pydiff: "iteration_order ord \<Longrightarrow> distinct a \<Longrightarrow> distinct (pydiff ord a b)"
  by (simp add: pydiff_def iteration_order_distinct)

lemma length_pydiff_pyset:
  assumes "iteration_order ord"
  shows "length (pydiff ord (pyset ord a) (pyset ord b)) = card (set a - set b)"
proof -
  have "distinct (pydiff ord (pyset ord a) (pyset ord b))"
    using assms by (simp add: distinct_pydiff distinct_pyset)
  then have "length (pydiff ord (pyset ord a) (pyset ord b))
           = card (set (pydiff ord (pyset ord a) (pyset ord b)))"
    by (simp add: distinct_card)
  then show ?thesis using assms by (simp add: set_pydiff set_pyset)
qed

lemma iteration_order_id: "iteration_order (\<lambda>xs. xs)"
  by (simp add: iteration_order_def)

section \<open>Events of a reconfiguration\<close>

lemma get_primary_ip_events:
  "get_primary_ip w ips now = (p, evs) \<Longrightarrow> e \<in> set evs \<Longrightarrow> \<not> is_reconfig e"
  by (induction ips arbitrary: now p evs)
    (auto simp: Let_def split: reply.splits if_splits prod.splits)

lemma get_primary_ip_result:
  "get_primary_ip w ips now = (Some p, evs) \<Longrightarrow> p \<in> set ips"
  by (induction ips arbitrary: now evs)
    (auto simp: Let_def split: reply.splits if_splits prod.splits)

lemma all_nodes_uninitialized_events:
  "all_nodes_uninitialized w ips now = (b, evs) \<Longrightarrow> e \<in> set evs \<Longrightarrow> \<not> is_reconfig e"
  by (induction ips arbitrary: now b evs)
    (auto simp: Let_def split: reply.splits if_splits prod.splits)

lemma wait_for_primary_events:
  "wait_for_primary w n p0 ips now = (p, evs) \<Longrightarrow> e \<in> set evs \<Longrightarrow> \<not> is_reconfig e"
proof (induction n arbitrary: now p0 p evs)
  case 0
  then show ?case by simp
next
  case (Suc n)
  show ?case
  proof (cases "truthy p0")
    case True
    with Suc.prems show ?thesis by simp
  next
    case False
    obtain q es where g: "get_primary_ip w ips (now + 1) = (q, es)" by force
    obtain q' es' where r: "wait_for_primary w n q ips (now + 1 + length es) = (q', es')" by force
    from Suc.prems False g r have "e = Sleep 10 \<or> e \<in> set es \<or> e \<in> set es'"
      by auto
    then show ?thesis
      using get_primary_ip_events [OF g] Suc.IH [OF r] by auto
  qed
qed

lemma wait_for_primary_result:
  "wait_for_primary w n p0 ips now = (Some p, evs) \<Longrightarrow> p0 = Some p \<or> p \<in> set ips"
proof (induction n arbitrary: now p0 evs)
  case 0
  then show ?case by simp
next
  case (Suc n)
  show ?case
  proof (cases "truthy p0")
    case True
    with Suc.prems show ?thesis by simp
  next
    case False
    obtain q es where g: "get_primary_ip w ips (now + 1) = (q, es)" by force
    obtain q' es' where r: "wait_for_primary w n q ips (now + 1 + length es) = (q', es')" by force
    from Suc.prems False g r have "q' = Some p" by auto
    with Suc.IH r have "q = Some p \<or> p \<in> set ips" by blast
    then show ?thesis using get_primary_ip_result g by blast
  qed
qed

lemma elect_target_cases:
  assumes "elect_target ord w new_ips to_add now = (res, evs)"
  obtains uninit es p es' where
    "all_nodes_uninitialized w new_ips now = (uninit, es)"
    "(if uninit \<and> length new_ips > 0 then (None, [])
      else wait_for_primary w 6 None new_ips (now + length es)) = (p, es')"
    "evs = es @ es'"
    "res = (case p of
              Some q \<Rightarrow> Inr q
            | None \<Rightarrow>
                (case pydiff ord new_ips to_add of
                   m # _ \<Rightarrow> Inr m
                 | [] \<Rightarrow> (case new_ips of [] \<Rightarrow> Inl IndexError | n # _ \<Rightarrow> Inr n)))"
proof -
  obtain uninit es where u: "all_nodes_uninitialized w new_ips now = (uninit, es)" by force
  obtain p es' where p: "(if uninit \<and> length new_ips > 0 then (None, [])
      else wait_for_primary w 6 None new_ips (now + length es)) = (p, es')" by force
  from assms u p have "evs = es @ es'"
    by (simp add: elect_target_def split: option.splits list.splits)
  moreover from assms u p have "res = (case p of
              Some q \<Rightarrow> Inr q
            | None \<Rightarrow>
                (case pydiff ord new_ips to_add of
                   m # _ \<Rightarrow> Inr m
                 | [] \<Rightarrow> (case new_ips of [] \<Rightarrow> Inl IndexError | n # _ \<Rightarrow> Inr n)))"
    by (auto simp add: elect_target_def split: option.splits list.splits)
  ultimately show ?thesis using that u p by blast
qed

lemma elect_target_events:
  assumes "elect_target ord w new_ips to_add now = (res, evs)" and "e \<in> set evs"
  shows "\<not> is_reconfig e"
proof -
  from assms(1) obtain uninit es p es' where
    u: "all_nodes_uninitialized w new_ips now = (uninit, es)" and
    p: "(if uninit \<and> length new_ips > 0 then (None, [])
      else wait_for_primary w 6 None new_ips (now + length es)) = (p, es')" and
    evs: "evs = es @ es'"
    by (rule elect_target_cases)
  from assms(2) evs have "e \<in> set es \<or> e \<in> set es'" by auto
  then show ?thesis
    using all_nodes_uninitialized_events [OF u] p wait_for_primary_events
    by (auto split: if_splits)
qed

lemma elect_target_result:
  assumes "iteration_order ord" and "elect_target ord w new_ips to_add now = (Inr t, evs)"
  shows "t \<in> set new_ips"
proof -
  from assms(2) obtain uninit es p es' where
    u: "all_nodes_uninitialized w new_ips now = (uninit, es)" and
    p: "(if uninit \<and> length new_ips > 0 then (None, [])
      else wait_for_primary w 6 None new_ips (now + length es)) = (p, es')" and
    evs: "evs = es @ es'" and
    res: "Inr t = (case p of
              Some q \<Rightarrow> Inr q
            | None \<Rightarrow>
                (case pydiff ord new_ips to_add of
                   m # _ \<Rightarrow> Inr m
                 | [] \<Rightarrow> (case new_ips of [] \<Rightarrow> Inl IndexError | n # _ \<Rightarrow> Inr n)))"
    by (rule elect_target_cases)
  have d: "pydiff ord new_ips to_add = m # ms \<Longrightarrow> m \<in> set new_ips" for m ms
    using set_pydiff [OF assms(1), of new_ips to_add] by auto
  have pin: "p = Some q \<Longrightarrow> q \<in> set new_ips" for q
    using p wait_for_primary_result [of w 6 None new_ips "now + length es" q es']
    by (auto split: if_splits)
  show ?thesis
    using res d pin by (auto split: option.splits list.splits)
qed

lemma apply_reconfig_events:
  "Reconfig t c f r \<in> set (apply_reconfig w n target cfg force now)
     \<Longrightarrow> t = target \<and> c = cfg \<and> f = force"
  by (induction n arbitrary: now) (auto simp: Let_def split: reply.splits py_error.splits)

lemma reconfigure_at_events:
  "Reconfig t c f r \<in> set (reconfigure_at w target to_remove to_add port force now)
     \<Longrightarrow> t = target \<and> f = force
         \<and> (\<exists>cfg. GetConfig target (Ok cfg)
                     \<in> set (reconfigure_at w target to_remove to_add port force now)
                  \<and> c = mutate_config cfg to_remove to_add port)"
  by (auto simp: reconfigure_at_def Let_def split: reply.splits dest: apply_reconfig_events)


lemma update_config_reconfig:
  assumes ord: "iteration_order ord"
    and run: "update_config ord w p cur new port now = (res, evs)"
    and ev: "Reconfig t c f r \<in> set evs"
  shows "(f \<longleftrightarrow> 1 < card (set cur - set new) \<or> 1 < card (set new - set cur)
                \<or> p = None \<or> (\<exists>q. p = Some q \<and> q \<in> set cur - set new))
       \<and> t \<notin> set cur - set new
       \<and> (p = None \<or> (\<exists>q. p = Some q \<and> q \<in> set cur - set new) \<longrightarrow>
            (\<exists>es es'. elect_target ord w new (pydiff ord (pyset ord new) (pyset ord cur)) now
                        = (Inr t, es) \<and> evs = es @ es'))
       \<and> (\<exists>cfg. GetConfig t (Ok cfg) \<in> set evs
              \<and> c = mutate_config cfg (pydiff ord (pyset ord cur) (pyset ord new))
                      (pydiff ord (pyset ord new) (pyset ord cur)) port)"
proof -
  define tr where "tr = pydiff ord (pyset ord cur) (pyset ord new)"
  define ta where "ta = pydiff ord (pyset ord new) (pyset ord cur)"
  have str: "set tr = set cur - set new" and sta: "set ta = set new - set cur"
    using ord by (simp_all add: tr_def ta_def set_pydiff set_pyset)
  have ltr: "length tr = card (set cur - set new)" and lta: "length ta = card (set new - set cur)"
    using ord by (simp_all add: tr_def ta_def length_pydiff_pyset)
  from ev have ne: "evs \<noteq> []" by auto
  show ?thesis
  proof (cases "case p of None \<Rightarrow> True | Some q \<Rightarrow> q \<in> set tr")
    case True
    then have pc: "p = None \<or> (\<exists>q. p = Some q \<and> q \<in> set cur - set new)"
      using str by (auto split: option.splits)
    obtain r0 es where el: "elect_target ord w new ta now = (r0, es)" by force
    show ?thesis
    proof (cases r0)
      case (Inl e)
      with run True el ne have "evs = es"
        by (auto simp: update_config_def Let_def tr_def [symmetric] ta_def [symmetric]
            split: if_splits)
      with ev elect_target_events [OF el] show ?thesis by fastforce
    next
      case (Inr target)
      with run True el ne have evs: "evs = es @ reconfigure_at w target tr ta port True (now + length es)"
        by (auto simp: update_config_def Let_def tr_def [symmetric] ta_def [symmetric]
            split: if_splits)
      from ev elect_target_events [OF el] have "Reconfig t c f r \<notin> set es" by fastforce
      with ev evs have "Reconfig t c f r \<in> set (reconfigure_at w target tr ta port True (now + length es))"
        by simp
      from reconfigure_at_events [OF this] obtain cfg where
        t: "t = target" and f: "f = True"
        and g: "GetConfig target (Ok cfg) \<in> set (reconfigure_at w target tr ta port True (now + length es))"
        and c: "c = mutate_config cfg tr ta port"
        by blast
      have "t \<in> set new"
        using elect_target_result [OF ord] el Inr t by blast
      then show ?thesis
        using t f g c pc evs el Inr by (auto simp: tr_def ta_def)
    qed
  next
    case False
    then obtain q where p: "p = Some q" and q: "q \<notin> set tr"
      by (auto split: option.splits)
    from run False ne p have evs: "evs = reconfigure_at w q tr ta port (1 < length tr \<or> 1 < length ta) now"
      by (auto simp: update_config_def Let_def tr_def [symmetric] ta_def [symmetric]
          split: if_splits)
    from reconfigure_at_events [OF ev [unfolded evs]] obtain cfg where
      t: "t = q" and f: "f = (1 < length tr \<or> 1 < length ta)"
      and g: "GetConfig q (Ok cfg) \<in> set (reconfigure_at w q tr ta port (1 < length tr \<or> 1 < length ta) now)"
      and c: "c = mutate_config cfg tr ta port"
      by blast
    show ?thesis
      using t f g c p q str ltr lta evs by (auto simp: tr_def ta_def)
  qed
qed

lemma get_primary_ip_writable:
  "get_primary_ip w ips now = (Some p, evs)
     \<Longrightarrow> \<exists>topo. Hello p (Ok topo) \<in> set evs \<and> isWritablePrimary topo"
proof (induction ips arbitrary: now evs)
  case Nil
  then show ?case by simp
next
  case (Cons a ips)
  obtain q es where g: "get_primary_ip w ips (now + 1) = (q, es)" by force
  show ?case
  proof (cases "\<exists>topo. hello_at w now a = Ok topo \<and> isWritablePrimary topo")
    case True
    with Cons.prems show ?thesis by (auto simp: Let_def)
  next
    case False
    with Cons.prems g have "q = Some p" and "evs = Hello a (hello_at w now a) # es"
      by (auto simp: Let_def split: reply.splits if_splits)
    with Cons.IH g show ?thesis by fastforce
  qed
qed

lemma wait_for_primary_writable:
  "wait_for_primary w n p0 ips now = (Some p, evs)
     \<Longrightarrow> p0 = Some p \<or> (\<exists>topo. Hello p (Ok topo) \<in> set evs \<and> isWritablePrimary topo)"
proof (induction n arbitrary: now p0 evs)
  case 0
  then show ?case by simp
next
  case (Suc n)
  show ?case
  proof (cases "truthy p0")
    case True
    with Suc.prems show ?thesis by simp
  next
    case False
    obtain q es where g: "get_primary_ip w ips (now + 1) = (q, es)" by force
    obtain q' es' where r: "wait_for_primary w n q ips (now + 1 + length es) = (q', es')" by force
    from Suc.prems False g r have q': "q' = Some p" and evs: "evs = Sleep 10 # es @ es'" by auto
    from Suc.IH r q' have "q = Some p \<or> (\<exists>topo. Hello p (Ok topo) \<in> set es' \<and> isWritablePrimary topo)"
      by blast
    then show ?thesis
      using get_primary_ip_writable g evs by fastforce
  qed
qed

lemma elect_target_choice:
  assumes "elect_target ord w new_ips to_add now = (Inr t, evs)"
  shows "(\<exists>topo. Hello t (Ok topo) \<in> set evs \<and> isWritablePrimary topo)
       \<or> (\<exists>rest. pydiff ord new_ips to_add = t # rest)
       \<or> (pydiff ord new_ips to_add = [] \<and> (\<exists>rest. new_ips = t # rest))"
proof -
  from assms obtain uninit es p es' where
    u: "all_nodes_uninitialized w new_ips now = (uninit, es)" and
    p: "(if uninit \<and> length new_ips > 0 then (None, [])
      else wait_for_primary w 6 None new_ips (now + length es)) = (p, es')" and
    evs: "evs = es @ es'" and
    res: "Inr t = (case p of
              Some q \<Rightarrow> Inr q
            | None \<Rightarrow>
                (case pydiff ord new_ips to_add of
                   m # _ \<Rightarrow> Inr m
                 | [] \<Rightarrow> (case new_ips of [] \<Rightarrow> Inl IndexError | n # _ \<Rightarrow> Inr n)))"
    by (rule elect_target_cases)
  show ?thesis
  proof (cases p)
    case None
    with res show ?thesis by (auto split: list.splits)
  next
    case (Some q)
    with res have "q = t" by simp
    with Some p have "wait_for_primary w 6 None new_ips (now + length es) = (Some t, es')"
      by (auto split: if_splits)
    from wait_for_primary_writable [OF this] evs show ?thesis by auto
  qed
qed

lemma py_max_Max: "xs \<noteq> [] \<Longrightarrow> py_max xs = Max (set xs)"
  by (cases xs) (simp_all add: Max.set_eq_fold [symmetric])

lemma enumerate_map_nth:
  "map (\<lambda>(i, x). F i x) (enumerate 0 xs) = map (\<lambda>i. F i (xs ! i)) [0..<length xs]"
  by (rule nth_equalityI) (simp_all add: nth_enumerate_eq)

lemma mutate_config_members:
  "members (mutate_config cfg to_remove to_add port)
     = kept_members cfg (set to_remove)
       @ map (\<lambda>i. \<lparr>m_id = next_member_id (kept_members cfg (set to_remove)) + int i,
                    host = format_host (to_add ! i) port\<rparr>) [0..<length to_add]"
proof -
  have k: "(if to_remove \<noteq> []
            then filter (\<lambda>m. host_ip (host m) \<notin> set to_remove) (members cfg)
            else members cfg) = kept_members cfg (set to_remove)"
    by (simp add: kept_members_def)
  have o: "(if kept \<noteq> [] then py_max (map m_id kept) + 1 else 0) = next_member_id kept" for kept
    by (simp add: next_member_id_def py_max_Max)
  show ?thesis
    unfolding mutate_config_def k o Let_def
    by (cases "to_add = []") (simp_all add: enumerate_map_nth)
qed

lemma mutate_config_fields:
  "version (mutate_config cfg to_remove to_add port) = version cfg + 1"
  "c_id (mutate_config cfg to_remove to_add port) = c_id cfg"
  by (simp_all add: mutate_config_def Let_def)

section \<open>Runs of \<open>update_config\<close> on concrete inputs\<close>

lemma port_str: "str_int 27017 = ''27017''"
  by (simp add: str_int_def str_nat.simps digit_char_def)

lemma rs0_config_eq:
  "rs0_config = \<lparr>c_id = ''rs0'',
          members = [\<lparr>m_id = 0, host = ''10.0.0.5:27017''\<rparr>,
                     \<lparr>m_id = 1, host = ''10.0.0.6:27017''\<rparr>,
                     \<lparr>m_id = 2, host = ''10.0.0.7:27017''\<rparr>],
          version = 1\<rparr>"
  by (simp add: rs0_config_def create_mongo_config_def format_host_def port_str)

lemmas update_config_eval = update_config_def pydiff_def pyset_def reconfigure_at_def
  mutate_config_def format_host_def port_str host_ip_def elect_target_def truthy_def Let_def
  steady_world_def silent_world_def rs0_config_eq numeral_3_eq_3

lemma scale_out_run:
  "update_config (\<lambda>xs. xs) steady_world (Some ''10.0.0.5'')
       [''10.0.0.5'', ''10.0.0.6'', ''10.0.0.7'']
       [''10.0.0.5'', ''10.0.0.6'', ''10.0.0.7'', ''10.0.0.8''] 27017 0
     = (Inr (), [GetConfig ''10.0.0.5'' (Ok rs0_config),
          Reconfig ''10.0.0.5''
            \<lparr>c_id = ''rs0'',
             members = [\<lparr>m_id = 0, host = ''10.0.0.5:27017''\<rparr>,
                        \<lparr>m_id = 1, host = ''10.0.0.6:27017''\<rparr>,
                        \<lparr>m_id = 2, host = ''10.0.0.7:27017''\<rparr>,
                        \<lparr>m_id = 3, host = ''10.0.0.8:27017''\<rparr>],
             version = 2\<rparr> False (Ok ())])"
  by (simp add: update_config_eval)

lemma primary_lost_run:
  "update_config (\<lambda>xs. xs) orphaned_world (Some ''10.0.0.5'')
       [''10.0.0.5'', ''10.0.0.6'', ''10.0.0.7''] [''10.0.0.7''] 27017 0
     = (Inr (),
        Hello ''10.0.0.7'' (Ok \<lparr>isWritablePrimary = False, setName = Some ''rs0'', primary = None\<rparr>)
        # concat (replicate 6
            [Sleep 10,
             Hello ''10.0.0.7'' (Ok \<lparr>isWritablePrimary = False, setName = Some ''rs0'', primary = None\<rparr>)])
        @ [GetConfig ''10.0.0.7'' (Ok rs0_config),
           Reconfig ''10.0.0.7''
             \<lparr>c_id = ''rs0'', members = [\<lparr>m_id = 2, host = ''10.0.0.7:27017''\<rparr>], version = 2\<rparr>
             True (Ok ())])"
  by (simp add: update_config_eval orphaned_world_def eval_nat_numeral)

lemma replace_and_grow_run:
  "update_config (\<lambda>xs. xs) steady_world (Some ''10.0.0.6'')
       [''10.0.0.5'', ''10.0.0.6'', ''10.0.0.7'']
       [''10.0.0.6'', ''10.0.0.7'', ''10.0.0.8'', ''10.0.0.9''] 27017 0
     = (Inr (), [GetConfig ''10.0.0.6'' (Ok rs0_config),
          Reconfig ''10.0.0.6''
            \<lparr>c_id = ''rs0'',
             members = [\<lparr>m_id = 1, host = ''10.0.0.6:27017''\<rparr>,
                        \<lparr>m_id = 2, host = ''10.0.0.7:27017''\<rparr>,
                        \<lparr>m_id = 3, host = ''10.0.0.8:27017''\<rparr>,
                        \<lparr>m_id = 4, host = ''10.0.0.9:27017''\<rparr>],
             version = 2\<rparr> True (Ok ())])"
  by (simp add: update_config_eval)

lemma replace_last_run:
  "update_config (\<lambda>xs. xs) steady_world (Some ''10.0.0.5'')
       [''10.0.0.5'', ''10.0.0.6'', ''10.0.0.7'']
       [''10.0.0.5'', ''10.0.0.6'', ''10.0.0.8''] 27017 0
     = (Inr (), [GetConfig ''10.0.0.5'' (Ok rs0_config),
          Reconfig ''10.0.0.5''
            \<lparr>c_id = ''rs0'',
             members = [\<lparr>m_id = 0, host = ''10.0.0.5:27017''\<rparr>,
                        \<lparr>m_id = 1, host = ''10.0.0.6:27017''\<rparr>,
                        \<lparr>m_id = 2, host = ''10.0.0.8:27017''\<rparr>],
             version = 2\<rparr> False (Ok ())])"
  by (simp add: update_config_eval)

section \<open>The force flag\<close>

text \<open>
  C2. Whenever \<open>update_config\<close> issues the reconfig command, it does so with
  \<open>force = true\<close> exactly when more than one ip is removed, or more than one is added, or
  the known primary is among the removed ips, or no primary is known. The witness is a
  single addition with a reachable primary, which goes out with \<open>force = false\<close>.
\<close>

theorem update_config_force:
  assumes "iteration_order ord"
    and "update_config ord w p cur new port now = (res, evs)"
    and "Reconfig t c f r \<in> set evs"
  shows "f \<longleftrightarrow> 1 < card (set cur - set new) \<or> 1 < card (set new - set cur)
               \<or> (\<exists>q. p = Some q \<and> q \<in> set cur - set new) \<or> p = None"
  using update_config_reconfig [OF assms] by blast

theorem update_config_force_witness:
  "iteration_order (\<lambda>xs. xs)
   \<and> Reconfig ''10.0.0.5''
            \<lparr>c_id = ''rs0'',
             members = [\<lparr>m_id = 0, host = ''10.0.0.5:27017''\<rparr>,
                        \<lparr>m_id = 1, host = ''10.0.0.6:27017''\<rparr>,
                        \<lparr>m_id = 2, host = ''10.0.0.7:27017''\<rparr>,
                        \<lparr>m_id = 3, host = ''10.0.0.8:27017''\<rparr>],
             version = 2\<rparr> False (Ok ())
       \<in> set (snd (update_config (\<lambda>xs. xs) steady_world (Some ''10.0.0.5'')
                      [''10.0.0.5'', ''10.0.0.6'', ''10.0.0.7'']
                      [''10.0.0.5'', ''10.0.0.6'', ''10.0.0.7'', ''10.0.0.8''] 27017 0))
   \<and> \<not> (1 < card (set [''10.0.0.5'', ''10.0.0.6'', ''10.0.0.7'']
                     - set [''10.0.0.5'', ''10.0.0.6'', ''10.0.0.7'', ''10.0.0.8'']))
   \<and> \<not> (1 < card (set [''10.0.0.5'', ''10.0.0.6'', ''10.0.0.7'', ''10.0.0.8'']
                     - set [''10.0.0.5'', ''10.0.0.6'', ''10.0.0.7'']))
   \<and> ''10.0.0.5'' \<notin> set [''10.0.0.5'', ''10.0.0.6'', ''10.0.0.7'']
                        - set [''10.0.0.5'', ''10.0.0.6'', ''10.0.0.7'', ''10.0.0.8'']"
  using update_config_force [OF iteration_order_id scale_out_run,
      of "''10.0.0.5''" _ False "Ok ()"]
  by (simp add: iteration_order_id scale_out_run)


section \<open>The mutated configuration\<close>

text \<open>
  C3. The configuration that \<open>update_config\<close> sends is built from the configuration
  \<open>existing\<close> it read from its target: its members are those of \<open>existing\<close> whose ip is
  not removed, unchanged and in their order, followed by one member per added ip, with
  ids counting up from the largest remaining id plus one (from 0 if none remains) and
  host \<open>ip:port\<close>; its version is that of \<open>existing\<close> plus 1 and its set name is that of
  \<open>existing\<close>.
\<close>

theorem update_config_mutation:
  assumes "iteration_order ord"
    and "update_config ord w p cur new port now = (res, evs)"
    and "Reconfig t c f r \<in> set evs"
  shows "\<exists>existing to_add.
           GetConfig t (Ok existing) \<in> set evs
         \<and> distinct to_add \<and> set to_add = set new - set cur
         \<and> members c
             = kept_members existing (set cur - set new)
               @ map (\<lambda>i. \<lparr>m_id = next_member_id (kept_members existing (set cur - set new)) + int i,
                            host = to_add ! i @ '':'' @ str_int port\<rparr>) [0..<length to_add]
         \<and> version c = version existing + 1
         \<and> c_id c = c_id existing"
proof -
  from update_config_reconfig [OF assms] obtain cfg where
    g: "GetConfig t (Ok cfg) \<in> set evs" and
    c: "c = mutate_config cfg (pydiff ord (pyset ord cur) (pyset ord new))
                      (pydiff ord (pyset ord new) (pyset ord cur)) port"
    by blast
  let ?ta = "pydiff ord (pyset ord new) (pyset ord cur)"
  have "distinct ?ta" and "set ?ta = set new - set cur"
    and "set (pydiff ord (pyset ord cur) (pyset ord new)) = set cur - set new"
    using assms(1) by (simp_all add: distinct_pydiff distinct_pyset set_pydiff set_pyset)
  with g c show ?thesis
    by (intro exI [of _ cfg] exI [of _ ?ta])
      (simp add: mutate_config_members mutate_config_fields format_host_def)
qed


theorem update_config_mutation_witness:
  "iteration_order (\<lambda>xs. xs)
   \<and> Reconfig ''10.0.0.6''
            \<lparr>c_id = ''rs0'',
             members = [\<lparr>m_id = 1, host = ''10.0.0.6:27017''\<rparr>,
                        \<lparr>m_id = 2, host = ''10.0.0.7:27017''\<rparr>,
                        \<lparr>m_id = 3, host = ''10.0.0.8:27017''\<rparr>,
                        \<lparr>m_id = 4, host = ''10.0.0.9:27017''\<rparr>],
             version = 2\<rparr> True (Ok ())
       \<in> set (snd (update_config (\<lambda>xs. xs) steady_world (Some ''10.0.0.6'')
                      [''10.0.0.5'', ''10.0.0.6'', ''10.0.0.7'']
                      [''10.0.0.6'', ''10.0.0.7'', ''10.0.0.8'', ''10.0.0.9''] 27017 0))
   \<and> kept_members rs0_config
        (set [''10.0.0.5'', ''10.0.0.6'', ''10.0.0.7'']
           - set [''10.0.0.6'', ''10.0.0.7'', ''10.0.0.8'', ''10.0.0.9''])
       = [\<lparr>m_id = 1, host = ''10.0.0.6:27017''\<rparr>, \<lparr>m_id = 2, host = ''10.0.0.7:27017''\<rparr>]
   \<and> next_member_id [\<lparr>m_id = 1, host = ''10.0.0.6:27017''\<rparr>, \<lparr>m_id = 2, host = ''10.0.0.7:27017''\<rparr>] = 3
   \<and> version rs0_config + 1 = 2"
  using update_config_mutation [OF iteration_order_id replace_and_grow_run,
      of "''10.0.0.6''" _ True "Ok ()"]
  by (simp add: iteration_order_id replace_and_grow_run kept_members_def next_member_id_def
      rs0_config_eq host_ip_def)

section \<open>Member ids over time\<close>

text \<open>
  C4, as stated, fails: ids are handed out from the largest id that remains after the
  removals, and no record is kept of the ids handed out before, so an id that belonged to
  a removed member can be handed out again. In the fresh set \<^verbatim>\<open>rs0\<close> the id 2 belongs
  to \<^verbatim>\<open>10.0.0.7\<close>; replacing that node by \<^verbatim>\<open>10.0.0.8\<close> gives the id 2 to
  \<^verbatim>\<open>10.0.0.8\<close>.
\<close>

theorem member_id_reused:
  "rs0_config = create_mongo_config [''10.0.0.5'', ''10.0.0.6'', ''10.0.0.7''] ''rs0'' 27017
   \<and> members rs0_config ! 2 = \<lparr>m_id = 2, host = ''10.0.0.7:27017''\<rparr>
   \<and> snd (update_config (\<lambda>xs. xs) steady_world (Some ''10.0.0.5'')
            [''10.0.0.5'', ''10.0.0.6'', ''10.0.0.7'']
            [''10.0.0.5'', ''10.0.0.6'', ''10.0.0.8''] 27017 0)
       = [GetConfig ''10.0.0.5'' (Ok rs0_config),
          Reconfig ''10.0.0.5''
            \<lparr>c_id = ''rs0'',
             members = [\<lparr>m_id = 0, host = ''10.0.0.5:27017''\<rparr>,
                        \<lparr>m_id = 1, host = ''10.0.0.6:27017''\<rparr>,
                        \<lparr>m_id = 2, host = ''10.0.0.8:27017''\<rparr>],
             version = 2\<rparr> False (Ok ())]"
  by (simp add: replace_last_run) (simp add: rs0_config_eq rs0_config_def [symmetric])

lemma kept_ids_below_next:
  "k \<in> set kept \<Longrightarrow> m_id k < next_member_id kept"
proof -
  assume k: "k \<in> set kept"
  then have "m_id k \<le> Max (m_id ` set kept)" by simp
  with k show ?thesis by (auto simp: next_member_id_def)
qed

lemma distinct_mutate_config:
  assumes "distinct (map m_id (members cfg))"
  shows "distinct (map m_id (members (mutate_config cfg to_remove to_add port)))"
proof -
  let ?kept = "kept_members cfg (set to_remove)"
  let ?n = "next_member_id ?kept"
  have d1: "distinct (map m_id ?kept)"
    using assms by (simp add: kept_members_def distinct_map_filter)
  have d2: "distinct (map (\<lambda>i. ?n + int i) [0..<length to_add])"
    by (simp add: distinct_map inj_on_def)
  have d3: "m_id ` set ?kept \<inter> (\<lambda>i. ?n + int i) ` {0..<length to_add} = {}"
    using kept_ids_below_next [of _ ?kept] by fastforce
  show ?thesis
    using d1 d2 d3 by (simp add: mutate_config_members comp_def)
qed

lemma distinct_run_mutations:
  "distinct (map m_id (members cfg))
     \<Longrightarrow> distinct (map m_id (members (run_mutations cfg steps port)))"
  by (induction cfg steps port rule: run_mutations.induct) (simp_all add: distinct_mutate_config)

lemma distinct_create_mongo_config:
  "distinct (map m_id (members (create_mongo_config ips name port)))"
proof -
  have "map m_id (members (create_mongo_config ips name port)) = map int [0..<length ips]"
    by (rule nth_equalityI) (simp_all add: create_mongo_config_def nth_enumerate_eq)
  then show ?thesis by (simp add: distinct_map inj_on_def)
qed

text \<open>
  C4, amended. In every configuration reached from a fresh one by any sequence of
  mutations the member ids are pairwise different; and each mutation keeps the members
  whose ip is not removed as they are and gives every added member an id larger than the
  ids of all the members it keeps.
\<close>

theorem member_ids_unique:
  "distinct (map m_id (members (run_mutations (create_mongo_config ips name port) steps port)))
   \<and> (\<exists>added. members (mutate_config cfg to_remove to_add port)
                  = kept_members cfg (set to_remove) @ added
              \<and> length added = length to_add
              \<and> (\<forall>a \<in> set added. \<forall>k \<in> set (kept_members cfg (set to_remove)). m_id k < m_id a))"
proof -
  let ?kept = "kept_members cfg (set to_remove)"
  let ?added = "map (\<lambda>i. \<lparr>m_id = next_member_id ?kept + int i,
                    host = format_host (to_add ! i) port\<rparr>) [0..<length to_add]"
  have "\<forall>a \<in> set ?added. \<forall>k \<in> set ?kept. m_id k < m_id a"
    using kept_ids_below_next [of _ ?kept] by fastforce
  then have "members (mutate_config cfg to_remove to_add port) = ?kept @ ?added
      \<and> length ?added = length to_add
      \<and> (\<forall>a \<in> set ?added. \<forall>k \<in> set ?kept. m_id k < m_id a)"
    by (simp add: mutate_config_members)
  then show ?thesis
    using distinct_run_mutations [OF distinct_create_mongo_config] by blast
qed

theorem member_ids_unique_witness:
  "members (run_mutations rs0_config [([''10.0.0.7''], []), ([], [''10.0.0.8''])] 27017)
     = [\<lparr>m_id = 0, host = ''10.0.0.5:27017''\<rparr>,
        \<lparr>m_id = 1, host = ''10.0.0.6:27017''\<rparr>,
        \<lparr>m_id = 2, host = ''10.0.0.8:27017''\<rparr>]
   \<and> distinct (map m_id (members
        (run_mutations rs0_config [([''10.0.0.7''], []), ([], [''10.0.0.8''])] 27017)))
   \<and> kept_members rs0_config (set [''10.0.0.5''])
       = [\<lparr>m_id = 1, host = ''10.0.0.6:27017''\<rparr>, \<lparr>m_id = 2, host = ''10.0.0.7:27017''\<rparr>]
   \<and> members (mutate_config rs0_config [''10.0.0.5''] [''10.0.0.8'', ''10.0.0.9''] 27017)
       = kept_members rs0_config (set [''10.0.0.5''])
         @ [\<lparr>m_id = 3, host = ''10.0.0.8:27017''\<rparr>, \<lparr>m_id = 4, host = ''10.0.0.9:27017''\<rparr>]"
  using member_ids_unique [of "[''10.0.0.5'', ''10.0.0.6'', ''10.0.0.7'']" "''rs0''" 27017
      "[([''10.0.0.7''], []), ([], [''10.0.0.8''])]" rs0_config "[''10.0.0.5'']"
      "[''10.0.0.8'', ''10.0.0.9'']"]
  by (simp add: rs0_config_eq kept_members_def mutate_config_def host_ip_def format_host_def
      port_str Let_def)

section \<open>The target of a reconfiguration\<close>

text \<open>
  C9. The ip to which \<open>update_config\<close> sends the reconfig command is never one of the
  removed ips. When the prior primary is removed or unknown, the target is one of the new
  ips: a node that answered \<^verbatim>\<open>hello\<close> as writable primary, or else the first surviving
  old member, or else, when no old member survives, the first new ip.
\<close>

theorem update_config_target:
  assumes "iteration_order ord"
    and "update_config ord w p cur new port now = (res, evs)"
    and "Reconfig t c f r \<in> set evs"
  shows "t \<notin> set cur - set new
       \<and> (p = None \<or> (\<exists>q. p = Some q \<and> q \<in> set cur - set new) \<longrightarrow>
            t \<in> set new
            \<and> ((\<exists>topo. Hello t (Ok topo) \<in> set evs \<and> isWritablePrimary topo)
               \<or> (\<exists>rest. pydiff ord new (pydiff ord (pyset ord new) (pyset ord cur)) = t # rest)
               \<or> (pydiff ord new (pydiff ord (pyset ord new) (pyset ord cur)) = []
                   \<and> (\<exists>rest. new = t # rest))))"
proof -
  note main = update_config_reconfig [OF assms]
  have "t \<in> set new
            \<and> ((\<exists>topo. Hello t (Ok topo) \<in> set evs \<and> isWritablePrimary topo)
               \<or> (\<exists>rest. pydiff ord new (pydiff ord (pyset ord new) (pyset ord cur)) = t # rest)
               \<or> (pydiff ord new (pydiff ord (pyset ord new) (pyset ord cur)) = []
                   \<and> (\<exists>rest. new = t # rest)))"
    if "p = None \<or> (\<exists>q. p = Some q \<and> q \<in> set cur - set new)"
  proof -
    from main that obtain es es' where
      el: "elect_target ord w new (pydiff ord (pyset ord new) (pyset ord cur)) now = (Inr t, es)"
      and evs: "evs = es @ es'"
      by blast
    from elect_target_result [OF assms(1) el] elect_target_choice [OF el] evs
    show ?thesis by auto
  qed
  with main show ?thesis by blast
qed

theorem update_config_target_witness:
  "iteration_order (\<lambda>xs. xs)
   \<and> Reconfig ''10.0.0.7''
        \<lparr>c_id = ''rs0'', members = [\<lparr>m_id = 2, host = ''10.0.0.7:27017''\<rparr>], version = 2\<rparr>
        True (Ok ())
       \<in> set (snd (update_config (\<lambda>xs. xs) orphaned_world (Some ''10.0.0.5'')
                      [''10.0.0.5'', ''10.0.0.6'', ''10.0.0.7''] [''10.0.0.7''] 27017 0))
   \<and> ''10.0.0.5'' \<in> set [''10.0.0.5'', ''10.0.0.6'', ''10.0.0.7''] - set [''10.0.0.7'']
   \<and> ''10.0.0.7'' \<notin> set [''10.0.0.5'', ''10.0.0.6'', ''10.0.0.7''] - set [''10.0.0.7'']
   \<and> ''10.0.0.7'' \<in> set [''10.0.0.7'']
   \<and> pydiff (\<lambda>xs. xs) [''10.0.0.7'']
        (pydiff (\<lambda>xs. xs) (pyset (\<lambda>xs. xs) [''10.0.0.7''])
           (pyset (\<lambda>xs. xs) [''10.0.0.5'', ''10.0.0.6'', ''10.0.0.7'']))
       = [''10.0.0.7'']"
  using update_config_target [OF iteration_order_id primary_lost_run,
      of "''10.0.0.7''" _ True "Ok ()"]
  by (simp add: iteration_order_id primary_lost_run pydiff_def pyset_def)

section \<open>The known membership\<close>

lemma probed_ips_append [simp]: "probed_ips (xs @ ys) = probed_ips xs @ probed_ips ys"
  by (induction xs rule: probed_ips.induct) simp_all

lemma slept_append [simp]: "slept (xs @ ys) = slept xs @ slept ys"
  by (induction xs rule: slept.induct) simp_all

lemma no_config_read_simps [simp]:
  "no_config_read []"
  "no_config_read (GetConfig t (Ok cfg) # evs) = False"
  "no_config_read (GetConfig t (Raise e) # evs) = no_config_read evs"
  "no_config_read (Sleep n # evs) = no_config_read evs"
  "no_config_read (xs @ ys) = (no_config_read xs \<and> no_config_read ys)"
  by (auto simp: no_config_read_def)

text \<open>What one round of probes can end in.\<close>

lemma probe_nodes_outcome:
  assumes "probe_nodes ord w ts n now = (res, evs)"
  shows "slept evs = [] \<and> (\<exists>k \<le> length ts. probed_ips evs = take k ts) \<and>
    ((\<exists>pre t cfg c. evs = pre @ [GetConfig t (Ok cfg)] \<and> no_config_read pre
         \<and> res = Inr (config_member_ips ord cfg, True, c))
     \<or> (no_config_read evs \<and> probed_ips evs = ts \<and> (\<exists>c. res = Inr ([], False, c)))
     \<or> (no_config_read evs
          \<and> (\<exists>t e. res = Inl e \<and> GetConfig t (Raise e) \<in> set evs \<and> \<not> ignored_error e)))"
  using assms
proof (induction ts arbitrary: n now res evs)
  case Nil
  then show ?case by auto
next
  case (Cons t ts)
  show ?case
  proof (cases "get_config_at w now t")
    case (Ok cfg)
    with Cons.prems have "res = Inr (config_member_ips ord cfg, True, n)"
      and "evs = [] @ [GetConfig t (Ok cfg)]"
      by (auto simp: Let_def)
    then show ?thesis
      by (intro conjI disjI1) (auto intro!: exI [of _ "Suc 0"] exI [of _ "[]"])
  next
    case (Raise e)
    show ?thesis
    proof (cases "ignored_error e")
      case False
      with Cons.prems Raise have "res = Inl e" and "evs = [GetConfig t (Raise e)]"
        by (auto simp: Let_def ignored_error_def split: py_error.splits)
      with False show ?thesis
        by (auto intro!: exI [of _ "Suc 0"])
    next
      case True
      then have "\<exists>n'. probe_nodes ord w (t # ts) n now
             = (fst (probe_nodes ord w ts n' (now + 1)),
                GetConfig t (Raise e) # snd (probe_nodes ord w ts n' (now + 1)))"
        using Raise
        by (cases e) (auto simp: Let_def ignored_error_def case_prod_beta)
      then obtain n' where
        rec: "probe_nodes ord w (t # ts) n now
             = (fst (probe_nodes ord w ts n' (now + 1)),
                GetConfig t (Raise e) # snd (probe_nodes ord w ts n' (now + 1)))"
        by blast
      obtain res' evs' where p: "probe_nodes ord w ts n' (now + 1) = (res', evs')" by force
      with rec Cons.prems have res: "res = res'" and evs: "evs = GetConfig t (Raise e) # evs'"
        by auto
      note IH = Cons.IH [OF p]
      from IH obtain k where k: "k \<le> length ts" "probed_ips evs' = take k ts" by blast
      have a: "slept evs = [] \<and> (\<exists>k \<le> length (t # ts). probed_ips evs = take k (t # ts))"
        using IH k evs by (auto intro!: exI [of _ "Suc k"])
      from IH consider
        (found) pre t' cfg c where "evs' = pre @ [GetConfig t' (Ok cfg)]" "no_config_read pre"
            "res' = Inr (config_member_ips ord cfg, True, c)"
        | (none) c where "no_config_read evs'" "probed_ips evs' = ts" "res' = Inr ([], False, c)"
        | (err) t' e' where "no_config_read evs'" "res' = Inl e'"
            "GetConfig t' (Raise e') \<in> set evs'" "\<not> ignored_error e'"
        by blast
      then have "(\<exists>pre t cfg c. evs = pre @ [GetConfig t (Ok cfg)] \<and> no_config_read pre
         \<and> res = Inr (config_member_ips ord cfg, True, c))
     \<or> (no_config_read evs \<and> probed_ips evs = t # ts \<and> (\<exists>c. res = Inr ([], False, c)))
     \<or> (no_config_read evs
          \<and> (\<exists>t e. res = Inl e \<and> GetConfig t (Raise e) \<in> set evs \<and> \<not> ignored_error e))"
      proof cases
        case found
        then have "evs = (GetConfig t (Raise e) # pre) @ [GetConfig t' (Ok cfg)]"
          "no_config_read (GetConfig t (Raise e) # pre)"
          using evs by simp_all
        with found res show ?thesis by blast
      next
        case none
        with res evs show ?thesis by simp
      next
        case err
        with res evs show ?thesis by auto
      qed
      with a show ?thesis by blast
    qed
  qed
qed


lemma take_append_prefix: "xs @ take k ys = take (length xs + k) (xs @ ys)"
  by simp

lemma gather_attempts_outcome:
  assumes "gather_attempts ord w T a now = (res, evs)"
  shows "(\<exists>k. probed_ips evs = take k (concat (replicate (max_retries - a) T))) \<and>
    ((\<exists>pre t cfg. evs = pre @ [GetConfig t (Ok cfg)] \<and> no_config_read pre
         \<and> res = Inr (config_member_ips ord cfg))
     \<or> (no_config_read evs \<and> res = Inr []
          \<and> (\<exists>k. (a < max_retries \<longrightarrow> 1 \<le> k) \<and> probed_ips evs = concat (replicate k T)))
     \<or> (no_config_read evs
          \<and> (\<exists>t e. res = Inl e \<and> GetConfig t (Raise e) \<in> set evs \<and> \<not> ignored_error e)))"
  using assms
proof (induction "max_retries - a" arbitrary: a now res evs)
  case 0
  then have "res = Inr []" and "evs = []" and "\<not> a < max_retries"
    by (simp_all add: gather_attempts.simps [of ord w T a now])
  then show ?case by (auto intro!: exI [of _ 0])
next
  case (Suc d)
  then have a: "a < max_retries" and d: "max_retries - a = Suc d" by simp_all
  obtain r1 e1 where p: "probe_nodes ord w T 0 now = (r1, e1)" by force
  note po = probe_nodes_outcome [OF p]
  from po obtain k where k: "probed_ips e1 = take k T" "k \<le> length T" by blast
  have pre: "\<exists>k. probed_ips e1 = take k (concat (replicate (max_retries - a) T))"
    using k d by (auto intro!: exI [of _ k])
  from po consider
    (found) pre t cfg c where "e1 = pre @ [GetConfig t (Ok cfg)]" "no_config_read pre"
        "r1 = Inr (config_member_ips ord cfg, True, c)"
    | (none) c where "no_config_read e1" "probed_ips e1 = T" "r1 = Inr ([], False, c)"
    | (err) t e where "no_config_read e1" "r1 = Inl e"
        "GetConfig t (Raise e) \<in> set e1" "\<not> ignored_error e"
    by blast
  then show ?case
  proof cases
    case found
    with Suc.prems a p have "res = Inr (config_member_ips ord cfg)" and "evs = e1"
      by (simp_all add: gather_attempts.simps [of ord w T a now])
    with found pre show ?thesis by blast
  next
    case err
    with Suc.prems a p have "res = Inl e" and "evs = e1"
      by (simp_all add: gather_attempts.simps [of ord w T a now])
    with err pre show ?thesis by blast
  next
    case none
    show ?thesis
    proof (cases "c = length T \<and> a < max_retries - 1")
      case False
      with Suc.prems a p none have "res = Inr []" and "evs = e1"
        by (auto simp: gather_attempts.simps [of ord w T a now])
      moreover have "\<exists>k. (a < max_retries \<longrightarrow> 1 \<le> k) \<and> probed_ips e1 = concat (replicate k T)"
        using none(2) by (auto intro!: exI [of _ 1])
      ultimately show ?thesis using none pre by blast
    next
      case True
      obtain r2 e2 where g: "gather_attempts ord w T (a + 1) (now + length e1 + 1) = (r2, e2)"
        by force
      with Suc.prems a p none True have res: "res = r2" and evs: "evs = e1 @ Sleep retry_delay # e2"
        by (auto simp: gather_attempts.simps [of ord w T a now])
      have "d = max_retries - (a + 1)" using d by simp
      note IH = Suc.hyps(1) [OF this g]
      from IH obtain k2 where k2: "probed_ips e2 = take k2 (concat (replicate (max_retries - (a + 1)) T))"
        by blast
      have d': "max_retries - Suc a = d" using d by simp
      have "probed_ips evs = take (length T + k2) (concat (replicate (max_retries - a) T))"
        using none(2) k2 d d' evs by simp
      then have 1: "\<exists>k. probed_ips evs = take k (concat (replicate (max_retries - a) T))" ..
      from IH consider
        (found2) pre t cfg where "e2 = pre @ [GetConfig t (Ok cfg)]" "no_config_read pre"
            "r2 = Inr (config_member_ips ord cfg)"
        | (none2) k' where "no_config_read e2" "r2 = Inr []"
            "probed_ips e2 = concat (replicate k' T)"
        | (err2) t e where "no_config_read e2" "r2 = Inl e"
            "GetConfig t (Raise e) \<in> set e2" "\<not> ignored_error e"
        by blast
      then have "(\<exists>pre t cfg. evs = pre @ [GetConfig t (Ok cfg)] \<and> no_config_read pre
         \<and> res = Inr (config_member_ips ord cfg))
     \<or> (no_config_read evs \<and> res = Inr []
          \<and> (\<exists>k. (a < max_retries \<longrightarrow> 1 \<le> k) \<and> probed_ips evs = concat (replicate k T)))
     \<or> (no_config_read evs
          \<and> (\<exists>t e. res = Inl e \<and> GetConfig t (Raise e) \<in> set evs \<and> \<not> ignored_error e))"
      proof cases
        case found2
        then have "evs = (e1 @ Sleep retry_delay # pre) @ [GetConfig t (Ok cfg)]"
          and "no_config_read (e1 @ Sleep retry_delay # pre)"
          using evs none(1) by simp_all
        with found2 res show ?thesis by blast
      next
        case none2
        have "probed_ips evs = concat (replicate (Suc k') T)"
          using none(2) none2(3) evs by simp
        then have "\<exists>k. (a < max_retries \<longrightarrow> 1 \<le> k) \<and> probed_ips evs = concat (replicate k T)"
          by (intro exI [of _ "Suc k'"]) simp
        with none(1) none2 res evs show ?thesis by simp
      next
        case err2
        with none(1) res evs show ?thesis by auto
      qed
      with 1 show ?thesis by blast
    qed
  qed
qed

lemma probe_nodes_not_yet_initialized:
  assumes "\<forall>tick. \<forall>t \<in> set ts. not_yet_initialized_reply (get_config_at w tick t)"
  shows "\<exists>evs. probe_nodes ord w ts n now = (Inr ([], False, n + length ts), evs)
            \<and> probed_ips evs = ts \<and> slept evs = [] \<and> no_config_read evs"
  using assms
proof (induction ts arbitrary: n now)
  case Nil
  then show ?case by simp
next
  case (Cons t ts)
  from Cons.prems have "not_yet_initialized_reply (get_config_at w now t)" by simp
  then obtain code msg where r: "get_config_at w now t = Raise (OperationFailure code msg)"
    and nyi: "is_not_yet_initialized code msg"
    by (auto simp: not_yet_initialized_reply_def split: reply.splits py_error.splits)
  from Cons.prems have "\<forall>tick. \<forall>t \<in> set ts. not_yet_initialized_reply (get_config_at w tick t)"
    by simp
  from Cons.IH [OF this, of "n + 1" "now + 1"] obtain evs where
    "probe_nodes ord w ts (n + 1) (now + 1) = (Inr ([], False, n + 1 + length ts), evs)"
    "probed_ips evs = ts" "slept evs = []" "no_config_read evs"
    by blast
  with r nyi show ?case by (simp add: Let_def)
qed

lemma gather_attempts_not_yet_initialized:
  assumes "\<forall>tick. \<forall>t \<in> set T. not_yet_initialized_reply (get_config_at w tick t)"
    and "a < max_retries"
  shows "\<exists>evs. gather_attempts ord w T a now = (Inr [], evs)
            \<and> probed_ips evs = concat (replicate (max_retries - a) T)
            \<and> slept evs = replicate (max_retries - 1 - a) retry_delay"
  using assms(2)
proof (induction "max_retries - a" arbitrary: a now)
  case 0
  then show ?case by simp
next
  case (Suc d)
  from probe_nodes_not_yet_initialized [OF assms(1), of ord 0 now] obtain e1 where
    p: "probe_nodes ord w T 0 now = (Inr ([], False, length T), e1)"
    and e1: "probed_ips e1 = T" "slept e1 = []"
    by auto
  show ?case
  proof (cases "a < max_retries - 1")
    case False
    with Suc.prems have "max_retries - a = 1" by simp
    with False Suc.prems p e1 show ?thesis
      by (simp add: gather_attempts.simps [of ord w T a now])
  next
    case True
    then have "d = max_retries - (a + 1)" and "a + 1 < max_retries"
      using Suc.hyps(2) by simp_all
    from Suc.hyps(1) [OF this, of "now + length e1 + 1"] obtain e2 where
      g: "gather_attempts ord w T (a + 1) (now + length e1 + 1) = (Inr [], e2)"
      and e2: "probed_ips e2 = concat (replicate (max_retries - (a + 1)) T)"
        "slept e2 = replicate (max_retries - 1 - (a + 1)) retry_delay"
      by blast
    have r: "max_retries - a = Suc (max_retries - Suc a)"
      and r': "max_retries - Suc a = Suc (max_retries - Suc (Suc a))"
      using True by simp_all
    from True Suc.prems p g have
      "gather_attempts ord w T a now = (Inr [], e1 @ Sleep retry_delay # e2)"
      by (simp add: gather_attempts.simps [of ord w T a now])
    with e1 e2 show ?thesis
      by (simp add: r r')
  qed
qed


text \<open>
  What \<open>gather_configured_members_ips\<close> does in every world. It probes the task ips in
  their order, round after round, for at most three rounds. If a probe returns a
  configuration, it is the last probe, no probe before it returned one, and the result is
  the set of member ips of that configuration. If no probe returns one, then either every
  round made probed all the task ips and the result is the empty set, or a probe raised an
  exception that is neither a server-selection timeout nor an operation failure, and that
  exception leaves the function. If every node answers every probe with the
  not-yet-initialized error (code 94), all three rounds are made, with a sleep of 10
  seconds between two rounds, and the result is the empty set.
\<close>

lemma gather_configured_members_ips_outcome:
  assumes "gather_configured_members_ips ord w T now = (res, evs)"
  shows "(\<exists>k. probed_ips evs = take k (T @ T @ T))
       \<and> ((\<exists>pre t cfg. evs = pre @ [GetConfig t (Ok cfg)] \<and> no_config_read pre
               \<and> res = Inr (config_member_ips ord cfg))
          \<or> (no_config_read evs \<and> res = Inr []
               \<and> (\<exists>k. 1 \<le> k \<and> probed_ips evs = concat (replicate k T)))
          \<or> (no_config_read evs
               \<and> (\<exists>t e. res = Inl e \<and> GetConfig t (Raise e) \<in> set evs \<and> \<not> ignored_error e)))
       \<and> ((\<forall>tick. \<forall>t \<in> set T. not_yet_initialized_reply (get_config_at w tick t))
            \<longrightarrow> res = Inr [] \<and> probed_ips evs = T @ T @ T \<and> slept evs = [10, 10])"
proof -
  have three: "concat (replicate max_retries T) = T @ T @ T"
    by (simp add: max_retries_def numeral_3_eq_3)
  have zero: "(0 < max_retries \<longrightarrow> P) = P" for P
    by (simp add: max_retries_def)
  from assms have g: "gather_attempts ord w T 0 now = (res, evs)"
    by (simp add: gather_configured_members_ips_def)
  note out = gather_attempts_outcome [OF g, simplified three diff_zero zero]
  have "res = Inr [] \<and> probed_ips evs = T @ T @ T \<and> slept evs = [10, 10]"
    if "\<forall>tick. \<forall>t \<in> set T. not_yet_initialized_reply (get_config_at w tick t)"
    using gather_attempts_not_yet_initialized [OF that, of 0 ord now] g three
    by (auto simp: max_retries_def retry_delay_def numeral_2_eq_2)
  with out show ?thesis by blast
qed

text \<open>
  A node that has not loaded its configuration yet is skipped, and the next node's
  configuration gives the known members.
\<close>

lemma joining_run:
  "gather_configured_members_ips (\<lambda>xs. xs) joining_world
       [''10.0.0.5'', ''10.0.0.6'', ''10.0.0.7''] 0
     = (Inr [''10.0.0.5'', ''10.0.0.6'', ''10.0.0.7''],
        [GetConfig ''10.0.0.5'' (Raise not_yet_initialized), GetConfig ''10.0.0.6'' (Ok rs0_config)])"
  by (simp add: gather_configured_members_ips_def gather_attempts.simps [of _ _ _ 0]
      max_retries_def joining_world_def silent_world_def not_yet_initialized_def
      is_not_yet_initialized_def config_member_ips_def pyset_def rs0_config_eq host_ip_def)

text \<open>A node that runs into the server-selection timeout is skipped in the same way.\<close>

lemma unreachable_run:
  "gather_configured_members_ips (\<lambda>xs. xs) unreachable_world
       [''10.0.0.5'', ''10.0.0.6'', ''10.0.0.7''] 0
     = (Inr [''10.0.0.5'', ''10.0.0.6'', ''10.0.0.7''],
        [GetConfig ''10.0.0.5'' (Raise ServerSelectionTimeoutError),
         GetConfig ''10.0.0.6'' (Ok rs0_config)])"
  by (simp add: gather_configured_members_ips_def gather_attempts.simps [of _ _ _ 0]
      max_retries_def unreachable_world_def silent_world_def
      config_member_ips_def pyset_def rs0_config_eq host_ip_def)

text \<open>
  The other places that probe the nodes catch every exception: \<open>get_primary_ip\<close> goes on
  to the next node after a \<open>NetworkTimeout\<close>.
\<close>

lemma get_primary_ip_network_timeout:
  "hello_at w now t = Raise NetworkTimeout \<Longrightarrow>
   get_primary_ip w (t # ts) now
     = (fst (get_primary_ip w ts (now + 1)),
        Hello t (Raise NetworkTimeout) # snd (get_primary_ip w ts (now + 1)))"
  by (simp add: case_prod_beta)

text \<open>
  C1. The code departs from the claim when a probe runs into the connect or socket
  timeout of its client. In \<open>hung_world\<close> the node \<^verbatim>\<open>10.0.0.5\<close> does not answer in time
  and the nodes \<^verbatim>\<open>10.0.0.6\<close> and \<^verbatim>\<open>10.0.0.7\<close> would return the configuration of
  \<^verbatim>\<open>rs0\<close>. The timeout is not ignored: the exception leaves
  \<open>gather_configured_members_ips\<close> after the first probe, no further ip is probed and no
  membership set is returned.
\<close>

theorem gather_configured_members_ips_network_timeout:
  "get_config_at hung_world 1 ''10.0.0.6'' = Ok rs0_config
   \<and> gather_configured_members_ips (\<lambda>xs. xs) hung_world
         [''10.0.0.5'', ''10.0.0.6'', ''10.0.0.7''] 0
       = (Inl NetworkTimeout, [GetConfig ''10.0.0.5'' (Raise NetworkTimeout)])"
  by (simp add: gather_configured_members_ips_def gather_attempts.simps [of _ _ _ 0]
      max_retries_def hung_world_def silent_world_def)

section \<open>Known members in the watch loop\<close>

lemma grown_ips:
  "observed_task_ips rejecting_world grown_service ''net'' t
     = Inr [''10.0.0.5'', ''10.0.0.6'', ''10.0.0.7'', ''10.0.0.8'']"
  by (simp add: observed_task_ips_def rejecting_world_def steady_world_def silent_world_def
      grown_service_def get_mongo_service_def get_running_tasks_def strip_prefix_len_def)

lemma grown_differs:
  "{''10.0.0.5'', ''10.0.0.6'', ''10.0.0.7''}
     \<noteq> {''10.0.0.5'', ''10.0.0.6'', ''10.0.0.7'', ''10.0.0.8''}"
proof
  assume eq: "{''10.0.0.5'', ''10.0.0.6'', ''10.0.0.7''}
     = {''10.0.0.5'', ''10.0.0.6'', ''10.0.0.7'', ''10.0.0.8''}"
  have "x \<in> {''10.0.0.5'', ''10.0.0.6'', ''10.0.0.7''}
     \<longleftrightarrow> x \<in> {''10.0.0.5'', ''10.0.0.6'', ''10.0.0.7'', ''10.0.0.8''}" for x
    by (simp only: eq)
  from this [of "''10.0.0.8''"] show False by simp
qed



lemma rejected_run:
  "update_config (\<lambda>xs. xs) rejecting_world (Some ''10.0.0.5'')
       [''10.0.0.5'', ''10.0.0.6'', ''10.0.0.7'']
       [''10.0.0.5'', ''10.0.0.6'', ''10.0.0.7'', ''10.0.0.8''] 27017 2
     = (Inr (),
        [GetConfig ''10.0.0.5'' (Ok rs0_config),
         Reconfig ''10.0.0.5'' rs0_grown False (Raise config_rejected), Sleep 5,
         Reconfig ''10.0.0.5'' rs0_grown False (Raise config_rejected), Sleep 5,
         Reconfig ''10.0.0.5'' rs0_grown False (Raise config_rejected), Sleep 5])"
  by (simp add: update_config_def pydiff_def pyset_def
      reconfigure_at_def mutate_config_def format_host_def port_str host_ip_def Let_def
      rejecting_world_def steady_world_def silent_world_def rs0_config_eq numeral_3_eq_3
      rs0_grown_def config_rejected_def)


lemma grown_hello:
  "get_primary_ip rejecting_world [''10.0.0.5'', ''10.0.0.6'', ''10.0.0.7'', ''10.0.0.8''] t
     = (Some ''10.0.0.5'',
        [Hello ''10.0.0.5'' (Ok \<lparr>isWritablePrimary = True, setName = Some ''rs0'',
                                  primary = Some ''10.0.0.5:27017''\<rparr>)])"
  by (simp add: rejecting_world_def steady_world_def silent_world_def)

lemma pyset_grown:
  "pyset (\<lambda>xs. xs) [''10.0.0.5'', ''10.0.0.6'', ''10.0.0.7'', ''10.0.0.8'']
     = [''10.0.0.5'', ''10.0.0.6'', ''10.0.0.7'', ''10.0.0.8'']"
  by (simp add: pyset_def)

lemma grown_differs_set:
  "set [''10.0.0.5'', ''10.0.0.6'', ''10.0.0.7'']
     \<noteq> set [''10.0.0.5'', ''10.0.0.6'', ''10.0.0.7'', ''10.0.0.8'']"
  using grown_differs by simp

text \<open>
  C6, as stated, fails: the known members are replaced by the observed task ips although
  the reconfiguration was rejected on all three attempts. \<open>update_config\<close> logs the
  failure and reports nothing to the loop.
\<close>

theorem known_members_after_rejection:
  "watch_iteration (\<lambda>xs. xs) rejecting_world grown_service ''net'' 27017
       \<lparr>current_member_ips = [''10.0.0.5'', ''10.0.0.6'', ''10.0.0.7''],
        current_primary_ip = Some ''10.0.0.5''\<rparr> 0
     = (Inr \<lparr>current_member_ips = [''10.0.0.5'', ''10.0.0.6'', ''10.0.0.7'', ''10.0.0.8''],
             current_primary_ip = Some ''10.0.0.5''\<rparr>,
        [Sleep 10, Inspect, GetConfig ''10.0.0.5'' (Ok rs0_config),
         Reconfig ''10.0.0.5'' rs0_grown False (Raise config_rejected), Sleep 5,
         Reconfig ''10.0.0.5'' rs0_grown False (Raise config_rejected), Sleep 5,
         Reconfig ''10.0.0.5'' rs0_grown False (Raise config_rejected), Sleep 5,
         Hello ''10.0.0.5'' (Ok \<lparr>isWritablePrimary = True, setName = Some ''rs0'',
                                  primary = Some ''10.0.0.5:27017''\<rparr>)])"
  by (simp only: watch_iteration_def grown_ips pyset_grown sum.case Let_def
      watch_state.simps grown_differs_set if_True add_0 rejected_run prod.case unit.case
      grown_hello append_Cons append_Nil)
    simp


lemma update_config_returns:
  assumes ord: "iteration_order ord" and diff: "set cur \<noteq> set new" and ne: "new \<noteq> []"
  shows "\<exists>evs. update_config ord w p cur new port now = (Inr (), evs)"
proof -
  define tr where "tr = pydiff ord (pyset ord cur) (pyset ord new)"
  define ta where "ta = pydiff ord (pyset ord new) (pyset ord cur)"
  have "set tr = set cur - set new" and "set ta = set new - set cur"
    using ord by (simp_all add: tr_def ta_def set_pydiff set_pyset)
  with diff have "set tr \<noteq> {} \<or> set ta \<noteq> {}" by blast
  then have changes: "tr \<noteq> [] \<or> ta \<noteq> []" by auto
  obtain r0 es where el: "elect_target ord w new ta now = (r0, es)" by force
  then obtain uninit es1 q es2 where
    r0: "r0 = (case q of
              Some q' \<Rightarrow> Inr q'
            | None \<Rightarrow>
                (case pydiff ord new ta of
                   m # _ \<Rightarrow> Inr m
                 | [] \<Rightarrow> (case new of [] \<Rightarrow> Inl IndexError | n # _ \<Rightarrow> Inr n)))"
    and "all_nodes_uninitialized w new now = (uninit, es1)"
    and "(if uninit \<and> length new > 0 then (None, [])
      else wait_for_primary w 6 None new (now + length es1)) = (q, es2)"
    and "es = es1 @ es2"
    by (rule elect_target_cases)
  from r0 ne obtain target where "r0 = Inr target"
    by (auto split: option.splits list.splits)
  with el changes show ?thesis
    by (auto simp: update_config_def Let_def tr_def [symmetric] ta_def [symmetric])
qed

text \<open>
  C6, amended. An iteration of the watch loop that observes a non-empty list of task ips
  ends with these ips as the known members, in every world: whether no reconfiguration
  was needed, or it was applied, or it failed on every attempt.
\<close>

theorem watch_iteration_known_members:
  assumes "iteration_order ord"
    and "observed_task_ips w mongo_service overlay (now + 1) = Inr ips"
    and "ips \<noteq> []"
  shows "\<exists>p evs. watch_iteration ord w mongo_service overlay port st now
                   = (Inr \<lparr>current_member_ips = pyset ord ips, current_primary_ip = p\<rparr>, evs)"
proof -
  have "set (pyset ord ips) = set ips" using assms(1) by (simp add: set_pyset)
  with assms(3) have ne: "pyset ord ips \<noteq> []" by auto
  obtain res evs where u:
    "(if set (current_member_ips st) \<noteq> set (pyset ord ips)
      then update_config ord w (current_primary_ip st) (current_member_ips st)
             (pyset ord ips) port (now + 2)
      else (Inr (), [])) = (res, evs)"
    by force
  have "res = Inr ()"
    using u update_config_returns [OF assms(1) _ ne, of "current_member_ips st" w
        "current_primary_ip st" port "now + 2"]
    by (auto split: if_splits)
  with u assms(2) show ?thesis
    by (simp add: watch_iteration_def Let_def split: prod.splits)
qed

theorem watch_iteration_known_members_witness:
  "iteration_order (\<lambda>xs. xs)
   \<and> observed_task_ips rejecting_world grown_service ''net'' (0 + 1)
       = Inr [''10.0.0.5'', ''10.0.0.6'', ''10.0.0.7'', ''10.0.0.8'']
   \<and> [''10.0.0.5'', ''10.0.0.6'', ''10.0.0.7'', ''10.0.0.8''] \<noteq> []
   \<and> (\<exists>p evs. watch_iteration (\<lambda>xs. xs) rejecting_world grown_service ''net'' 27017
                  \<lparr>current_member_ips = [''10.0.0.5'', ''10.0.0.6'', ''10.0.0.7''],
                   current_primary_ip = Some ''10.0.0.5''\<rparr> 0
                = (Inr \<lparr>current_member_ips = [''10.0.0.5'', ''10.0.0.6'', ''10.0.0.7'', ''10.0.0.8''],
                        current_primary_ip = p\<rparr>, evs))"
  using watch_iteration_known_members [where now = 0 and port = 27017
      and st = "\<lparr>current_member_ips = [''10.0.0.5'', ''10.0.0.6'', ''10.0.0.7''],
                current_primary_ip = Some ''10.0.0.5''\<rparr>",
      OF iteration_order_id grown_ips]
  by (simp add: iteration_order_id grown_ips pyset_grown)

section \<open>Redeployment detected at initiation\<close>

lemma initialize_mongodb_admin_events:
  "e \<in> set (initialize_mongodb_admin w n primary_ip user pwd name now)
     \<Longrightarrow> \<not> is_reconfig e \<and> \<not> is_initiate e"
  by (induction n arbitrary: now)
    (auto simp: Let_def split: reply.splits if_splits option.splits)

lemma redeployed_run:
  "init_replica redeployed_world [one_task] [''10.0.1.5'', ''10.0.1.6'', ''10.0.1.7'']
       ''rs0'' 27017 ''admin'' ''secret'' ''mongo'' 0
     = (Inr (),
        [Sleep 15, ListContainers (Ok [''proxy.1.x1'', ''mongo.1.abc'']),
         ListContainers (Ok [''proxy.1.x1'', ''mongo.1.abc'']),
         Exec ''mongo.1.abc''
           (RsInitiate (create_mongo_config [''10.0.1.5'', ''10.0.1.6'', ''10.0.1.7''] ''rs0'' 27017))
           (Ok (1, ''MongoServerError: command replSetInitiate requires authentication'')),
         Reconfig ''10.0.1.5''
           (create_mongo_config [''10.0.1.5'', ''10.0.1.6'', ''10.0.1.7''] ''rs0'' 27017)
           True (Ok ())])"
  by (simp add: init_replica_def redeployed_world_def silent_world_def one_task_def
      service_container_def name_stem_def auth_required_def reconfigure_replica_set_def Let_def)

lemma initiated_run:
  "filter is_reconfig
     (snd (init_replica initiated_world [one_task] [''10.0.1.5'', ''10.0.1.6'', ''10.0.1.7'']
             ''rs0'' 27017 ''admin'' ''secret'' ''mongo'' 0)) = []"
  by (simp add: init_replica_def initiated_world_def redeployed_world_def silent_world_def
      one_task_def service_container_def name_stem_def auth_required_def Let_def
      eval_nat_numeral)

text \<open>
  C7. \<open>init_replica\<close> issues the driver's reconfig command only after the shell's
  \<^verbatim>\<open>rs.initiate\<close> returned a non-zero exit code with an output that contains
  \<^verbatim>\<open>replSetInitiate requires authentication\<close>, and whenever that happens it does issue
  it: with \<open>force = true\<close>, against the first of the ips (the bootstrap target), and with
  the fresh configuration built for the ips.
\<close>

theorem init_replica_handoff:
  assumes "init_replica w tasks ips name port user pwd svc now = (res, evs)"
  shows "(\<forall>t c f r. Reconfig t c f r \<in> set evs \<longrightarrow>
            (\<exists>rest. ips = t # rest) \<and> c = create_mongo_config ips name port \<and> f
          \<and> (\<exists>mc code out. Exec mc (RsInitiate c) (Ok (code, out)) \<in> set evs
                 \<and> code \<noteq> 0 \<and> contains auth_required out))
       \<and> (\<forall>mc c code out.
            Exec mc (RsInitiate c) (Ok (code, out)) \<in> set evs \<and> code \<noteq> 0
              \<and> contains auth_required out \<longrightarrow>
            (\<exists>t rest r. ips = t # rest
               \<and> Reconfig t (create_mongo_config ips name port) True r \<in> set evs))"
proof (cases ips)
  case Nil
  with assms show ?thesis by (auto simp: init_replica_def)
next
  case (Cons primary_ip rest)
  let ?cfg = "create_mongo_config ips name port"
  let ?admin = "initialize_mongodb_admin w 8 primary_ip user pwd svc (now + 4)"
  have admin: "Reconfig t c f r \<notin> set ?admin" "Exec mc (RsInitiate c) x \<notin> set ?admin"
    for t c f r mc x
    using initialize_mongodb_admin_events [of _ w 8 primary_ip user pwd svc "now + 4"]
    by fastforce+
  show ?thesis
  proof (cases "tasks = []")
    case True
    with assms Cons show ?thesis by (auto simp: init_replica_def)
  next
    case False
    obtain res' evs' where rr: "reconfigure_replica_set w primary_ip ?cfg (now + 4) = (res', evs')"
      by force
    then obtain r where evs': "evs' = [Reconfig primary_ip ?cfg True r]"
      by (auto simp: reconfigure_replica_set_def Let_def split: reply.splits py_error.splits)
    show ?thesis
      using assms Cons False rr evs' admin
      by (auto simp: init_replica_def Let_def
          split: reply.splits option.splits if_splits prod.splits)
  qed
qed


theorem init_replica_handoff_witness:
  "Exec ''mongo.1.abc''
       (RsInitiate (create_mongo_config [''10.0.1.5'', ''10.0.1.6'', ''10.0.1.7''] ''rs0'' 27017))
       (Ok (1, ''MongoServerError: command replSetInitiate requires authentication''))
     \<in> set (snd (init_replica redeployed_world [one_task]
                    [''10.0.1.5'', ''10.0.1.6'', ''10.0.1.7'']
                    ''rs0'' 27017 ''admin'' ''secret'' ''mongo'' 0))
   \<and> (1::int) \<noteq> 0
   \<and> contains auth_required ''MongoServerError: command replSetInitiate requires authentication''
   \<and> Reconfig ''10.0.1.5''
         (create_mongo_config [''10.0.1.5'', ''10.0.1.6'', ''10.0.1.7''] ''rs0'' 27017)
         True (Ok ())
       \<in> set (snd (init_replica redeployed_world [one_task]
                    [''10.0.1.5'', ''10.0.1.6'', ''10.0.1.7'']
                    ''rs0'' 27017 ''admin'' ''secret'' ''mongo'' 0))"
  using init_replica_handoff [OF redeployed_run]
  by (simp add: redeployed_run auth_required_def)

end
